theory Spec2Isabelle
  imports Main
begin

section \<open>The chat server of server.js\<close>

text \<open>
  The server keeps three global variables: \<open>users\<close> (socket id to nickname), \<open>groups\<close>
  (group name to member list) and \<open>chatHistory\<close> (the stored messages). Every handler
  runs to completion before the next event is taken, so a handler is a function from
  the state before to the state after together with the packets it emitted, in order.
  The set of connected sockets lives inside socket.io; it is the field \<open>sockets\<close> of
  the state, changed by connection and disconnection only.
\<close>

subsection \<open>JavaScript objects used as dictionaries\<close>

text \<open>
  \<open>users\<close> and \<open>groups\<close> are plain objects. An object is modelled by the list of its
  own properties in creation order. Assigning to an existing key keeps its place,
  assigning to a new key appends, \<open>delete\<close> removes.
\<close>

fun obj_set :: "(string \<times> 'v) list \<Rightarrow> string \<Rightarrow> 'v \<Rightarrow> (string \<times> 'v) list" where
  "obj_set [] k v = [(k, v)]"
| "obj_set (p # ps) k v = (if fst p = k then (k, v) # ps else p # obj_set ps k v)"

definition obj_delete :: "(string \<times> 'v) list \<Rightarrow> string \<Rightarrow> (string \<times> 'v) list" where
  "obj_delete ps k = filter (\<lambda>p. fst p \<noteq> k) ps"

text \<open>
  \<open>Object.keys\<close>, \<open>Object.values\<close> and \<open>Object.entries\<close> enumerate the keys that are
  array indices (canonical decimal numerals up to \<open>2^32 - 2\<close>) first, in ascending
  numeric order, and then all other keys in creation order.
\<close>

definition decimal :: "string \<Rightarrow> nat" where
  "decimal k = foldl (\<lambda>a c. 10 * a + (of_char c - 48)) 0 k"

definition array_index :: "string \<Rightarrow> nat option" where
  "array_index k =
     (if k \<noteq> [] \<and> list_all (\<lambda>c. 48 \<le> (of_char c :: nat) \<and> (of_char c :: nat) \<le> 57) k
         \<and> (k = ''0'' \<or> hd k \<noteq> CHR ''0'') \<and> decimal k \<le> 4294967294
      then Some (decimal k) else None)"

definition index_value :: "string \<Rightarrow> nat" where
  "index_value k = (case array_index k of Some n \<Rightarrow> n | None \<Rightarrow> 0)"

definition object_entries :: "(string \<times> 'v) list \<Rightarrow> (string \<times> 'v) list" where
  "object_entries ps =
     sort_key (\<lambda>p. index_value (fst p)) (filter (\<lambda>p. array_index (fst p) \<noteq> None) ps)
     @ filter (\<lambda>p. array_index (fst p) = None) ps"

definition object_keys :: "(string \<times> 'v) list \<Rightarrow> string list" where
  "object_keys ps = map fst (object_entries ps)"

definition object_values :: "(string \<times> 'v) list \<Rightarrow> 'v list" where
  "object_values ps = map snd (object_entries ps)"

text \<open>
  Reading \<open>obj[k]\<close> finds an own property, or else a property inherited from
  \<open>Object.prototype\<close>, or else \<open>undefined\<close>. The inherited values are functions (and,
  for \<open>__proto__\<close>, the prototype object itself): truthy, and without the array
  methods \<open>includes\<close> and \<open>forEach\<close>.
\<close>

definition object_prototype_names :: "string list" where
  "object_prototype_names =
     [''constructor'', ''__defineGetter__'', ''__defineSetter__'', ''hasOwnProperty'',
      ''__lookupGetter__'', ''__lookupSetter__'', ''isPrototypeOf'',
      ''propertyIsEnumerable'', ''toString'', ''valueOf'', ''__proto__'',
      ''toLocaleString'']"

datatype 'v property = Undefined | Own 'v | Inherited

definition obj_get :: "(string \<times> 'v) list \<Rightarrow> string \<Rightarrow> 'v property" where
  "obj_get ps k =
     (case map_of ps k of
        Some v \<Rightarrow> Own v
      | None \<Rightarrow> if k \<in> set object_prototype_names then Inherited else Undefined)"

subsection \<open>Data\<close>

type_synonym sid = string
type_synonym gname = string

text \<open>
  A nickname is the value the client sent with \<open>set nickname\<close>, stored as it came
  (line 85): a string or \<open>null\<close>. The same values occur as the target of a private
  message and in the member list of \<open>create group\<close>. They are compared with \<open>===\<close>;
  \<open>null\<close> and the empty string are falsy. Values of other kinds (numbers, objects,
  an argument left out) are outside the model.
\<close>

datatype nick = Null | Name string

definition nick_truthy :: "nick \<Rightarrow> bool" where
  "nick_truthy n = (case n of Null \<Rightarrow> False | Name k \<Rightarrow> k \<noteq> [])"

text \<open>
  The message object built by the three chat handlers. \<open>name\<close> is the sender's
  nickname or the default, \<open>target\<close> is \<open>null\<close>, the target of a private message as
  received, or a group name; \<open>type\<close> is the string the handler writes.
\<close>

record message =
  id_m :: sid
  name_m :: nick
  text_m :: string
  image_m :: "string option"
  time_m :: int
  type_m :: string
  target_m :: nick

record state =
  sockets :: "sid list"
  users :: "(sid \<times> nick) list"
  groups :: "(gname \<times> nick list) list"
  chatHistory :: "message list"

text \<open>The fields \<open>type\<close>, \<open>text\<close> and \<open>data\<close> of an inbound chat payload; each may be absent.\<close>

record body =
  type_b :: "string option"
  text_b :: "string option"
  data_b :: "string option"

text \<open>The payload of \<open>chat public\<close> is a string or an object.\<close>

datatype public_msg = Str string | Obj body

text \<open>
  The texts of the \<open>system message\<close> packets, named after the error they report:
  \<^item> \<open>TargetNotConnected t\<close>: the text of line 121, with the target nickname;
  \<^item> \<open>GroupNotFound g\<close>: line 148, with the group name;
  \<^item> \<open>NotAGroupMember g\<close>: line 154, with the group name;
  \<^item> \<open>InvalidRequest\<close>: line 182;
  \<^item> \<open>DuplicateGroup g\<close>: line 187, with the group name;
  \<^item> \<open>NoValidMembers\<close>: line 199;
  \<^item> \<open>GroupCreated g n\<close>: the confirmation of line 216, with name and member count.
\<close>

datatype notice =
    TargetNotConnected nick
  | GroupNotFound gname
  | NotAGroupMember gname
  | InvalidRequest
  | DuplicateGroup gname
  | NoValidMembers
  | GroupCreated gname nat

datatype packet =
    UserList "nick list"
  | GroupList "gname list"
  | ChatHistory "message list"
  | ChatMessage message
  | SystemMessage notice
  | Typing "nick option" string "string option"

text \<open>
  The four ways the code emits: \<open>io.emit\<close>, \<open>socket.broadcast.emit\<close> (from the socket
  given), \<open>socket.emit\<close> (on the socket given) and \<open>io.to(sid).emit\<close>.
\<close>

datatype channel = IoEmit | SocketBroadcast sid | SocketEmit sid | IoTo sid

type_synonym emission = "channel \<times> packet"

text \<open>
  Which connected socket a channel reaches: every socket is in the room named by its
  own id and in no other room.
\<close>

fun reaches :: "sid list \<Rightarrow> channel \<Rightarrow> sid \<Rightarrow> bool" where
  "reaches socks IoEmit c = (c \<in> set socks)"
| "reaches socks (SocketBroadcast from) c = (c \<in> set socks \<and> c \<noteq> from)"
| "reaches socks (SocketEmit on) c = (c \<in> set socks \<and> c = on)"
| "reaches socks (IoTo room) c = (c \<in> set socks \<and> c = room)"

definition inbox :: "sid list \<Rightarrow> emission list \<Rightarrow> sid \<Rightarrow> packet list" where
  "inbox socks es c = map snd (filter (\<lambda>e. reaches socks (fst e) c) es)"

text \<open>
  What a handler did: the state it left, the packets it emitted, and whether it ended
  by throwing a TypeError (a call of \<open>includes\<close> or \<open>forEach\<close> on an inherited property).
\<close>

record outcome =
  post :: state
  emits :: "emission list"
  threw :: bool

definition done_with :: "state \<Rightarrow> emission list \<Rightarrow> outcome" where
  "done_with s es = \<lparr>post = s, emits = es, threw = False\<rparr>"

definition throws :: "state \<Rightarrow> emission list \<Rightarrow> outcome" where
  "throws s es = \<lparr>post = s, emits = es, threw = True\<rparr>"

subsection \<open>Utilities (lines 42 to 60)\<close>

text \<open>\<open>users[sid]\<close>, for a socket id (never a property name of \<open>Object.prototype\<close>).\<close>

definition users_get :: "state \<Rightarrow> sid \<Rightarrow> nick option" where
  "users_get s i = map_of (users s) i"

text \<open>
  \<open>Object.entries(users).find(([sid, nick]) => nick === nickname)?.[0] || null\<close>: the
  first entry with that nickname; an empty id is falsy and gives \<open>null\<close>.
\<close>

definition nicknameToSocketId :: "state \<Rightarrow> nick \<Rightarrow> sid option" where
  "nicknameToSocketId s nickname =
     (case find (\<lambda>e. snd e = nickname) (object_entries (users s)) of
        None \<Rightarrow> None
      | Some e \<Rightarrow> if fst e = [] then None else Some (fst e))"

text \<open>A property key made from \<open>msg.target\<close>: \<open>null\<close> becomes the key \<open>"null"\<close>.\<close>

definition prop_key :: "nick \<Rightarrow> string" where
  "prop_key t = (case t of Null \<Rightarrow> ''null'' | Name k \<Rightarrow> k)"

text \<open>
  The callback of \<open>filterHistoryForNickname\<close>: \<open>Some b\<close> when it returns \<open>b\<close>, \<open>None\<close>
  when \<open>members.includes\<close> is not a function.
\<close>

definition visible :: "state \<Rightarrow> nick \<Rightarrow> message \<Rightarrow> bool option" where
  "visible s nickname msg =
     (if type_m msg = ''public'' then Some True
      else if type_m msg = ''private'' then
        Some (name_m msg = nickname \<or> target_m msg = nickname)
      else if type_m msg = ''group'' then
        (case obj_get (groups s) (prop_key (target_m msg)) of
           Undefined \<Rightarrow> Some False
         | Own members \<Rightarrow> Some (nickname \<in> set members)
         | Inherited \<Rightarrow> None)
      else Some False)"

fun filter_msgs :: "state \<Rightarrow> nick \<Rightarrow> message list \<Rightarrow> message list option" where
  "filter_msgs s nickname [] = Some []"
| "filter_msgs s nickname (msg # rest) =
     (case visible s nickname msg of
        None \<Rightarrow> None
      | Some keep \<Rightarrow>
          (case filter_msgs s nickname rest of
             None \<Rightarrow> None
           | Some kept \<Rightarrow> Some (if keep then msg # kept else kept)))"

definition filterHistoryForNickname :: "state \<Rightarrow> nick \<Rightarrow> message list option" where
  "filterHistoryForNickname s nickname = filter_msgs s nickname (chatHistory s)"

text \<open>
  \<open>Object.keys(groups).filter(g => (groups[g] || []).includes(nick))\<close>; \<open>g\<close> is an own
  key, so \<open>groups[g]\<close> is its own value.
\<close>

definition myGroups :: "state \<Rightarrow> nick \<Rightarrow> gname list" where
  "myGroups s nickname =
     map fst (filter (\<lambda>e. nickname \<in> set (snd e)) (object_entries (groups s)))"

subsection \<open>Building a message (lines 100 to 109, 125 to 134, 158 to 167)\<close>

text \<open>\<open>users[socket.id] || "Desconocido"\<close>: an absent or falsy nickname gives the default.\<close>

definition sender_name :: "state \<Rightarrow> sid \<Rightarrow> nick" where
  "sender_name s i =
     (case users_get s i of
        None \<Rightarrow> Name ''Desconocido''
      | Some n \<Rightarrow> if nick_truthy n then n else Name ''Desconocido'')"

definition isImage :: "body \<Rightarrow> bool" where
  "isImage b = (type_b b = Some ''image'')"

definition text_of :: "body \<Rightarrow> string" where
  "text_of b = (if isImage b then [] else (case text_b b of None \<Rightarrow> [] | Some t \<Rightarrow> t))"

definition image_of :: "body \<Rightarrow> string option" where
  "image_of b = (if isImage b then data_b b else None)"

definition public_message :: "state \<Rightarrow> sid \<Rightarrow> public_msg \<Rightarrow> int \<Rightarrow> message" where
  "public_message s i msg now =
     \<lparr>id_m = i, name_m = sender_name s i,
      text_m = (case msg of Str t \<Rightarrow> t | Obj b \<Rightarrow> text_of b),
      image_m = (case msg of Str t \<Rightarrow> None | Obj b \<Rightarrow> image_of b),
      time_m = now, type_m = ''public'', target_m = Null\<rparr>"

definition private_message :: "state \<Rightarrow> sid \<Rightarrow> nick \<Rightarrow> body \<Rightarrow> int \<Rightarrow> message" where
  "private_message s i targetNickname b now =
     \<lparr>id_m = i, name_m = sender_name s i, text_m = text_of b, image_m = image_of b,
      time_m = now, type_m = ''private'', target_m = targetNickname\<rparr>"

definition group_message :: "sid \<Rightarrow> nick \<Rightarrow> gname \<Rightarrow> body \<Rightarrow> int \<Rightarrow> message" where
  "group_message i senderNick groupName b now =
     \<lparr>id_m = i, name_m = senderNick, text_m = text_of b, image_m = image_of b,
      time_m = now, type_m = ''group'', target_m = Name groupName\<rparr>"

definition push_history :: "state \<Rightarrow> message \<Rightarrow> state" where
  "push_history s m = s\<lparr>chatHistory := chatHistory s @ [m]\<rparr>"

subsection \<open>The reset endpoint (lines 63 to 77)\<close>

text \<open>
  The loop over \<open>Object.keys(users)\<close>: to each socket id an empty group list, then the
  history filtered for \<open>users[sid]\<close>. An entry \<open>(sid, nick)\<close> stands for the key \<open>sid\<close>
  and the value \<open>users[sid]\<close>. The flag tells whether the filter threw.
\<close>

fun reset_each :: "state \<Rightarrow> (sid \<times> nick) list \<Rightarrow> emission list \<times> bool" where
  "reset_each s [] = ([], False)"
| "reset_each s (e # rest) =
     (case filterHistoryForNickname s (snd e) of
        None \<Rightarrow> ([(IoTo (fst e), GroupList [])], True)
      | Some h \<Rightarrow>
          (case reset_each s rest of
             (es, t) \<Rightarrow> ((IoTo (fst e), GroupList []) # (IoTo (fst e), ChatHistory h) # es, t)))"

definition reset :: "state \<Rightarrow> outcome" where
  "reset s =
     (let s' = s\<lparr>chatHistory := [], groups := []\<rparr>
      in case reset_each s' (object_entries (users s')) of
           (es, t) \<Rightarrow>
             \<lparr>post = s', emits = (IoEmit, UserList (object_values (users s'))) # es, threw = t\<rparr>)"

subsection \<open>The socket handlers (lines 79 to 254)\<close>

text \<open>A new socket: socket.io gives it an id and the handlers are registered.\<close>

definition connection :: "state \<Rightarrow> sid \<Rightarrow> outcome" where
  "connection s i = done_with (s\<lparr>sockets := sockets s @ [i]\<rparr>) []"

definition set_nickname :: "state \<Rightarrow> sid \<Rightarrow> nick \<Rightarrow> outcome" where
  "set_nickname s i nickname =
     (let s' = s\<lparr>users := obj_set (users s) i nickname\<rparr>;
          first = [(IoEmit, UserList (object_values (users s')))]
      in case filterHistoryForNickname s' nickname of
           None \<Rightarrow> throws s' first
         | Some h \<Rightarrow>
             done_with s'
               (first @ [(SocketEmit i, ChatHistory h),
                         (SocketEmit i, GroupList (myGroups s' nickname))]))"

definition chat_public :: "state \<Rightarrow> sid \<Rightarrow> public_msg \<Rightarrow> int \<Rightarrow> outcome" where
  "chat_public s i msg now =
     (let message = public_message s i msg now
      in done_with (push_history s message) [(IoEmit, ChatMessage message)])"

definition chat_private :: "state \<Rightarrow> sid \<Rightarrow> nick \<Rightarrow> body \<Rightarrow> int \<Rightarrow> outcome" where
  "chat_private s i targetNickname b now =
     (case nicknameToSocketId s targetNickname of
        None \<Rightarrow> done_with s [(SocketEmit i, SystemMessage (TargetNotConnected targetNickname))]
      | Some targetId \<Rightarrow>
          (let message = private_message s i targetNickname b now
           in done_with (push_history s message)
                [(SocketEmit i, ChatMessage message), (IoTo targetId, ChatMessage message)]))"

text \<open>
  The \<open>forEach\<close> of lines 173 to 176: one emission for each member nickname that resolves
  to a socket id, in the order of the member list.
\<close>

fun to_members :: "state \<Rightarrow> packet \<Rightarrow> nick list \<Rightarrow> emission list" where
  "to_members s p [] = []"
| "to_members s p (memberNick # rest) =
     (case nicknameToSocketId s memberNick of
        None \<Rightarrow> to_members s p rest
      | Some sid \<Rightarrow> (IoTo sid, p) # to_members s p rest)"

definition chat_group :: "state \<Rightarrow> sid \<Rightarrow> gname \<Rightarrow> body \<Rightarrow> int \<Rightarrow> outcome" where
  "chat_group s i groupName b now =
     (if groupName = [] then done_with s [(SocketEmit i, SystemMessage (GroupNotFound groupName))]
      else case obj_get (groups s) groupName of
        Undefined \<Rightarrow> done_with s [(SocketEmit i, SystemMessage (GroupNotFound groupName))]
      | Inherited \<Rightarrow>
          (case users_get s i of
             None \<Rightarrow> done_with s [(SocketEmit i, SystemMessage (NotAGroupMember groupName))]
           | Some senderNick \<Rightarrow>
               if \<not> nick_truthy senderNick
               then done_with s [(SocketEmit i, SystemMessage (NotAGroupMember groupName))]
               else throws s [])
      | Own members \<Rightarrow>
          (case users_get s i of
             None \<Rightarrow> done_with s [(SocketEmit i, SystemMessage (NotAGroupMember groupName))]
           | Some senderNick \<Rightarrow>
               if \<not> nick_truthy senderNick \<or> senderNick \<notin> set members
               then done_with s [(SocketEmit i, SystemMessage (NotAGroupMember groupName))]
               else
                 (let message = group_message i senderNick groupName b now
                  in done_with (push_history s message)
                       (to_members s (ChatMessage message) members))))"

text \<open>
  The \<open>forEach\<close> of lines 207 to 213, run after the group is stored: each member that
  resolves to a socket id is sent the names of the groups it belongs to.
\<close>

fun notify_members :: "state \<Rightarrow> nick list \<Rightarrow> emission list" where
  "notify_members s [] = []"
| "notify_members s (nick # rest) =
     (case nicknameToSocketId s nick of
        None \<Rightarrow> notify_members s rest
      | Some sid \<Rightarrow> (IoTo sid, GroupList (myGroups s nick)) # notify_members s rest)"

text \<open>
  Lines 192 to 196: the proposed members that are nicknames of \<open>users\<close>, and then the
  creator's nickname when it is truthy and not yet included.
\<close>

definition validMembers :: "state \<Rightarrow> sid \<Rightarrow> nick list \<Rightarrow> nick list" where
  "validMembers s i members =
     (let connectedNicknames = set (object_values (users s));
          valid = filter (\<lambda>n. n \<in> connectedNicknames) members
      in case users_get s i of
           None \<Rightarrow> valid
         | Some creatorNick \<Rightarrow>
             if nick_truthy creatorNick \<and> creatorNick \<notin> set valid then valid @ [creatorNick]
             else valid)"

text \<open>\<open>members\<close> is \<open>None\<close> when the payload's field is not an array.\<close>

definition create_group :: "state \<Rightarrow> sid \<Rightarrow> gname \<Rightarrow> nick list option \<Rightarrow> outcome" where
  "create_group s i groupName members =
     (if groupName = [] \<or> members = None \<or> members = Some []
      then done_with s [(SocketEmit i, SystemMessage InvalidRequest)]
      else if obj_get (groups s) groupName \<noteq> Undefined
      then done_with s [(SocketEmit i, SystemMessage (DuplicateGroup groupName))]
      else
        (let valid = validMembers s i (case members of None \<Rightarrow> [] | Some ms \<Rightarrow> ms)
         in if valid = []
            then done_with s [(SocketEmit i, SystemMessage NoValidMembers)]
            else
              (let s' = s\<lparr>groups := obj_set (groups s) groupName valid\<rparr>
               in done_with s'
                    (notify_members s' valid
                     @ [(SocketEmit i, SystemMessage (GroupCreated groupName (length valid)))]))))"

text \<open>
  The \<open>forEach\<close> of lines 229 to 232: the members that resolve to a socket id other
  than the sender's.
\<close>

fun typing_members :: "state \<Rightarrow> sid \<Rightarrow> packet \<Rightarrow> nick list \<Rightarrow> emission list" where
  "typing_members s i p [] = []"
| "typing_members s i p (memberNick # rest) =
     (case nicknameToSocketId s memberNick of
        None \<Rightarrow> typing_members s i p rest
      | Some sid \<Rightarrow>
          if sid \<noteq> i then (IoTo sid, p) # typing_members s i p rest
          else typing_members s i p rest)"

text \<open>
  The \<open>target\<close> of a typing event: \<open>None\<close> when it is absent or \<open>null\<close>. It is truthy when
  it is a non-empty string.
\<close>

definition truthy :: "string option \<Rightarrow> bool" where
  "truthy t = (case t of None \<Rightarrow> False | Some k \<Rightarrow> k \<noteq> [])"

definition str_of :: "string option \<Rightarrow> string" where
  "str_of t = (case t of None \<Rightarrow> [] | Some k \<Rightarrow> k)"

definition typing :: "state \<Rightarrow> sid \<Rightarrow> string \<Rightarrow> string option \<Rightarrow> outcome" where
  "typing s i type target =
     (let senderNick = users_get s i
      in if type = ''public''
         then done_with s [(SocketBroadcast i, Typing senderNick type None)]
         else if type = ''private'' \<and> truthy target
         then (case nicknameToSocketId s (Name (str_of target)) of
                 None \<Rightarrow> done_with s []
               | Some targetId \<Rightarrow> done_with s [(IoTo targetId, Typing senderNick type target)])
         else if type = ''group'' \<and> truthy target
         then (case obj_get (groups s) (str_of target) of
                 Undefined \<Rightarrow> done_with s []
               | Inherited \<Rightarrow> throws s []
               | Own members \<Rightarrow>
                   done_with s (typing_members s i (Typing senderNick type target) members))
         else done_with s [])"

text \<open>
  Lines 239 to 252: the entry of the socket is deleted, the user list is sent to all,
  and the \<open>forEach\<close> over the remaining keys of \<open>users\<close> sends each socket the groups
  of its own nickname. The socket has left the server when the handler runs.
\<close>

definition disconnect :: "state \<Rightarrow> sid \<Rightarrow> outcome" where
  "disconnect s i =
     (let s' = s\<lparr>sockets := removeAll i (sockets s), users := obj_delete (users s) i\<rparr>
      in done_with s'
           ((IoEmit, UserList (object_values (users s')))
            # map (\<lambda>e. (IoTo (fst e), GroupList (myGroups s' (snd e))))
                (object_entries (users s'))))"

subsection \<open>Events\<close>

datatype event =
    Connection sid
  | SetNickname sid nick
  | ChatPublic sid public_msg int
  | ChatPrivate sid nick body int
  | ChatGroup sid gname body int
  | CreateGroup sid gname "nick list option"
  | TypingEvent sid string "string option"
  | Disconnect sid
  | Reset

fun handle :: "state \<Rightarrow> event \<Rightarrow> outcome" where
  "handle s (Connection i) = connection s i"
| "handle s (SetNickname i nickname) = set_nickname s i nickname"
| "handle s (ChatPublic i msg now) = chat_public s i msg now"
| "handle s (ChatPrivate i target b now) = chat_private s i target b now"
| "handle s (ChatGroup i groupName b now) = chat_group s i groupName b now"
| "handle s (CreateGroup i groupName members) = create_group s i groupName members"
| "handle s (TypingEvent i type target) = typing s i type target"
| "handle s (Disconnect i) = disconnect s i"
| "handle s Reset = reset s"

text \<open>
  An event can occur when its socket is connected. A new connection gets an id that is
  not in use; socket.io ids are twenty characters drawn at random, so they are never
  empty and never a property name of \<open>Object.prototype\<close>.
\<close>

fun can_occur :: "state \<Rightarrow> event \<Rightarrow> bool" where
  "can_occur s (Connection i) =
     (i \<noteq> [] \<and> i \<notin> set object_prototype_names \<and> i \<notin> set (sockets s))"
| "can_occur s (SetNickname i nickname) = (i \<in> set (sockets s))"
| "can_occur s (ChatPublic i msg now) = (i \<in> set (sockets s))"
| "can_occur s (ChatPrivate i target b now) = (i \<in> set (sockets s))"
| "can_occur s (ChatGroup i groupName b now) = (i \<in> set (sockets s))"
| "can_occur s (CreateGroup i groupName members) = (i \<in> set (sockets s))"
| "can_occur s (TypingEvent i type target) = (i \<in> set (sockets s))"
| "can_occur s (Disconnect i) = (i \<in> set (sockets s))"
| "can_occur s Reset = True"

text \<open>
  The states the server passes through from \<open>s0\<close>. A handler that throws ends the
  process, so no state follows it.
\<close>

inductive reachable_from :: "state \<Rightarrow> state \<Rightarrow> bool" for s0 :: state where
  start: "reachable_from s0 s0"
| step: "reachable_from s0 s \<Longrightarrow> can_occur s e \<Longrightarrow> \<not> threw (handle s e)
         \<Longrightarrow> reachable_from s0 (post (handle s e))"



text \<open>At start nothing is connected and the history is what the history file held.\<close>

definition initial :: "message list \<Rightarrow> state" where
  "initial h = \<lparr>sockets = [], users = [], groups = [], chatHistory = h\<rparr>"

subsection \<open>Properties of states\<close>

text \<open>
  What holds of every state the server reaches: socket ids are distinct, non-empty and
  not property names of \<open>Object.prototype\<close>; the keys of \<open>users\<close> are distinct ids of
  connected sockets; the keys of \<open>groups\<close> are distinct, non-empty and not property
  names of \<open>Object.prototype\<close>.
\<close>

definition wf_state :: "state \<Rightarrow> bool" where
  "wf_state s =
     (distinct (sockets s)
      \<and> list_all (\<lambda>i. i \<noteq> [] \<and> i \<notin> set object_prototype_names) (sockets s)
      \<and> distinct (map fst (users s))
      \<and> list_all (\<lambda>i. i \<in> set (sockets s)) (map fst (users s))
      \<and> distinct (map fst (groups s))
      \<and> list_all (\<lambda>g. g \<noteq> [] \<and> g \<notin> set object_prototype_names) (map fst (groups s)))"

text \<open>
  A stored message can be filtered when looking up its group does not end in an
  inherited property.
\<close>

definition readable :: "state \<Rightarrow> message \<Rightarrow> bool" where
  "readable s m =
     (type_m m \<noteq> ''group'' \<or> obj_get (groups s) (prop_key (target_m m)) \<noteq> Inherited)"

definition history_readable :: "state \<Rightarrow> bool" where
  "history_readable s = list_all (readable s) (chatHistory s)"




text \<open>The sockets that get the packet \<open>p\<close> out of the emissions \<open>es\<close>.\<close>

definition receivers :: "sid list \<Rightarrow> emission list \<Rightarrow> packet \<Rightarrow> sid set" where
  "receivers socks es p = {c \<in> set socks. p \<in> set (inbox socks es c)}"

subsection \<open>States and payloads used in the examples\<close>

text \<open>A text payload, and small states on which the theorems below are evaluated.\<close>

definition hi :: body where
  "hi = \<lparr>type_b = None, text_b = Some ''hi'', data_b = None\<rparr>"

definition c1_state :: state where
  "c1_state = \<lparr>sockets = [''s1'', ''s2''], users = [(''s1'', Name []), (''s2'', Name ''bob'')],
     groups = [], chatHistory = []\<rparr>"

definition c1w_state :: state where
  "c1w_state = \<lparr>sockets = [''s1'', ''s2'', ''s3''],
     users = [(''s1'', Name ''ann''), (''s2'', Name ''bob''), (''s3'', Name ''cid'')],
     groups = [], chatHistory = []\<rparr>"

definition c2_state :: state where
  "c2_state = \<lparr>sockets = [''s1''], users = [(''s1'', Name [])],
     groups = [(''G'', [Name []])],
     chatHistory = []\<rparr>"

definition c3_bare :: state where
  "c3_bare = \<lparr>sockets = [''s1''], users = [], groups = [], chatHistory = []\<rparr>"

definition c3_state :: state where
  "c3_state = \<lparr>sockets = [''s1''], users = [(''s1'', Name ''z'')], groups = [],
     chatHistory = []\<rparr>"



definition c5_message :: message where
  "c5_message = \<lparr>id_m = ''s1'', name_m = Name ''ann'', text_m = ''hi'', image_m = None,
     time_m = 0, type_m = ''public'', target_m = Null\<rparr>"

definition c5_state :: state where
  "c5_state = \<lparr>sockets = [''s1'', ''s2''], users = [(''s1'', Name ''ann'')],
     groups = [(''G'', [Name ''ann''])], chatHistory = [c5_message]\<rparr>"

definition c6_state :: state where
  "c6_state = \<lparr>sockets = [''s1'', ''s2''],
     users = [(''s1'', Name ''x''), (''s2'', Name ''z'')], groups = [], chatHistory = []\<rparr>"

definition c9_state :: state where
  "c9_state = \<lparr>sockets = [''s1'', ''s2'', ''s3''],
     users = [(''s1'', Name ''x''), (''s2'', Name ''z'')], groups = [], chatHistory = []\<rparr>"

definition c10_state :: state where
  "c10_state = \<lparr>sockets = [''s1'', ''s2'', ''s3''],
     users = [(''s1'', Name ''x''), (''s2'', Name ''z'')],
     groups = [(''G'', [Name ''x'', Name ''z''])], chatHistory = []\<rparr>"

definition c10_dup :: state where
  "c10_dup = \<lparr>sockets = [''s1'', ''s2'', ''s3''],
     users = [(''s1'', Name ''x''), (''s2'', Name ''x''), (''s3'', Name ''z'')],
     groups = [(''G'', [Name ''x'', Name ''z''])], chatHistory = []\<rparr>"

section \<open>Lemmas about the model\<close>

subsection \<open>Truthy nicknames\<close>

lemma nick_truthy_simps [simp]:
  "nick_truthy Null = False" "nick_truthy (Name k) = (k \<noteq> [])"
  by (simp_all add: nick_truthy_def)

subsection \<open>Objects\<close>

lemma set_object_entries: "set (object_entries ps) = set ps"
  by (auto simp: object_entries_def)

lemma distinct_object_entries:
  assumes "distinct (map fst ps)"
  shows "distinct (map fst (object_entries ps))"
proof -
  have inj: "inj_on fst (set ps)" and d: "distinct ps"
    using assms by (simp_all add: distinct_map)
  have "distinct (object_entries ps)"
    using d by (auto simp: object_entries_def)
  moreover have "inj_on fst (set (object_entries ps))"
    using inj by (simp add: set_object_entries)
  ultimately show ?thesis by (simp add: distinct_map)
qed

lemma array_index_s [simp]: "array_index (CHR ''s'' # k) = None"
  by (simp add: array_index_def)

lemma array_index_G [simp]: "array_index ''G'' = None"
  by (simp add: array_index_def)

lemma object_entries_Nil [simp]: "object_entries [] = []"
  by (simp add: object_entries_def)

lemma object_entries_plain:
  "list_all (\<lambda>p. array_index (fst p) = None) ps \<Longrightarrow> object_entries ps = ps"
  by (simp add: object_entries_def list_all_iff)

lemma find_first:
  "\<forall>e \<in> set before. \<not> P e \<Longrightarrow> P x \<Longrightarrow> find P (before @ x # after) = Some x"
  by (induction before) simp_all

lemma obj_set_fresh: "map_of ps k = None \<Longrightarrow> obj_set ps k v = ps @ [(k, v)]"
  by (induction ps) (auto split: if_splits)

lemma map_of_obj_set: "map_of (obj_set ps k v) = (map_of ps)(k \<mapsto> v)"
  by (induction ps) (auto simp: fun_eq_iff)

lemma keys_obj_set: "fst ` set (obj_set ps k v) = insert k (fst ` set ps)"
  by (induction ps) auto

lemma distinct_obj_set: "distinct (map fst ps) \<Longrightarrow> distinct (map fst (obj_set ps k v))"
  by (induction ps) (auto simp: keys_obj_set)

lemma obj_get_Own_iff: "obj_get ps k = Own v \<longleftrightarrow> map_of ps k = Some v"
  by (simp add: obj_get_def split: option.splits)

lemma obj_get_Undefined_map_of: "obj_get ps k = Undefined \<Longrightarrow> map_of ps k = None"
  by (simp add: obj_get_def split: option.splits)

lemma obj_get_Undefined_iff:
  "obj_get ps k = Undefined \<longleftrightarrow> map_of ps k = None \<and> k \<notin> set object_prototype_names"
  by (simp add: obj_get_def split: option.splits)

lemma obj_get_obj_set_not_inherited:
  "obj_get ps k \<noteq> Inherited \<Longrightarrow> obj_get (obj_set ps g v) k \<noteq> Inherited"
  by (simp add: obj_get_def map_of_obj_set split: option.splits if_splits)

subsection \<open>Resolving a nickname\<close>

lemma nicknameToSocketId_SomeD:
  assumes "nicknameToSocketId s n = Some c"
  shows "(c, n) \<in> set (users s) \<and> c \<noteq> []"
proof -
  from assms obtain e where f: "find (\<lambda>e. snd e = n) (object_entries (users s)) = Some e"
    and c: "fst e = c" "c \<noteq> []"
    by (auto simp: nicknameToSocketId_def split: option.splits if_splits)
  from f have "e \<in> set (object_entries (users s))" "snd e = n"
    by (auto simp: find_Some_iff)
  then have "e \<in> set (users s)" by (simp add: set_object_entries)
  with c \<open>snd e = n\<close> show ?thesis by (cases e) auto
qed

lemma wf_resolved:
  assumes "wf_state s" and "nicknameToSocketId s n = Some c"
  shows "c \<in> set (sockets s) \<and> users_get s c = Some n"
proof -
  from nicknameToSocketId_SomeD[OF assms(2)] have m: "(c, n) \<in> set (users s)" by simp
  from assms(1) have d: "distinct (map fst (users s))"
    and sub: "\<forall>i \<in> set (map fst (users s)). i \<in> set (sockets s)"
    by (simp_all add: wf_state_def list_all_iff)
  from m have "c \<in> set (map fst (users s))" by force
  with sub have "c \<in> set (sockets s)" by blast
  moreover from d m have "map_of (users s) c = Some n" by simp
  ultimately show ?thesis by (simp add: users_get_def)
qed

lemma wf_user_socket:
  assumes "wf_state s" and "(i, n) \<in> set (users s)"
  shows "i \<in> set (sockets s) \<and> i \<noteq> [] \<and> users_get s i = Some n"
proof -
  from assms have "i \<in> set (sockets s)" by (auto simp: wf_state_def list_all_iff)
  moreover from this assms(1) have "i \<noteq> []" by (auto simp: wf_state_def list_all_iff)
  moreover from assms have "map_of (users s) i = Some n" by (simp add: wf_state_def)
  ultimately show ?thesis by (simp add: users_get_def)
qed

lemma resolved_iff_holds:
  assumes wf: "wf_state s" and uniq: "distinct (map snd (users s))"
  shows "nicknameToSocketId s n = Some c \<longleftrightarrow> users_get s c = Some n"
proof
  assume "nicknameToSocketId s n = Some c"
  with wf_resolved[OF wf] show "users_get s c = Some n" by blast
next
  assume "users_get s c = Some n"
  then have m: "(c, n) \<in> set (users s)" by (simp add: users_get_def map_of_SomeD)
  then have "\<exists>e \<in> set (object_entries (users s)). snd e = n"
    by (auto simp: set_object_entries intro: bexI[where x="(c, n)"])
  then obtain e where f: "find (\<lambda>e. snd e = n) (object_entries (users s)) = Some e"
    by (cases "find (\<lambda>e. snd e = n) (object_entries (users s))") (auto simp: find_None_iff)
  then have "e \<in> set (object_entries (users s))" "snd e = n"
    by (auto simp: find_Some_iff)
  then have e: "e \<in> set (users s)" "snd e = n" by (simp_all add: set_object_entries)
  from uniq have "inj_on snd (set (users s))" by (simp add: distinct_map)
  moreover have "snd e = snd (c, n)" using e(2) by simp
  ultimately have "e = (c, n)" using e(1) m by (rule inj_onD)
  moreover from wf_user_socket[OF wf m] have "c \<noteq> []" by simp
  ultimately show "nicknameToSocketId s n = Some c"
    using f by (simp add: nicknameToSocketId_def)
qed

lemma wf_group_name:
  assumes "wf_state s" and "obj_get (groups s) G = Own M"
  shows "G \<noteq> []"
proof -
  from assms(2) have "map_of (groups s) G = Some M" by (simp add: obj_get_Own_iff)
  then have "G \<in> set (map fst (groups s))" by (force dest: map_of_SomeD)
  with assms(1) show ?thesis by (auto simp: wf_state_def list_all_iff)
qed

lemma sender_name_Some: "users_get s i = Some A \<Longrightarrow> nick_truthy A \<Longrightarrow> sender_name s i = A"
  by (simp add: sender_name_def)

subsection \<open>Who receives an emission\<close>

lemma inbox_Nil: "inbox socks [] c = []"
  by (simp add: inbox_def)

lemma inbox_Cons:
  "inbox socks (e # es) c = (if reaches socks (fst e) c then snd e # inbox socks es c else inbox socks es c)"
  by (simp add: inbox_def)

lemma inbox_append: "inbox socks (es @ fs) c = inbox socks es c @ inbox socks fs c"
  by (simp add: inbox_def)

lemma receivers_Nil: "receivers socks [] p = {}"
  by (simp add: receivers_def inbox_Nil)

lemma receivers_Cons:
  "receivers socks (e # es) p =
     (if snd e = p then {c \<in> set socks. reaches socks (fst e) c} else {}) \<union> receivers socks es p"
  by (auto simp: receivers_def inbox_Cons)

lemma receivers_IoTo:
  "c \<in> set socks \<Longrightarrow> receivers socks ((IoTo c, p) # es) p = insert c (receivers socks es p)"
  by (auto simp: receivers_Cons)

lemma to_members_receivers:
  assumes "wf_state s"
  shows "receivers (sockets s) (to_members s p M) p
           = {c. \<exists>member \<in> set M. nicknameToSocketId s member = Some c}"
proof (induction M)
  case Nil
  then show ?case by (simp add: receivers_Nil)
next
  case (Cons a M)
  show ?case
  proof (cases "nicknameToSocketId s a")
    case None
    with Cons show ?thesis by auto
  next
    case (Some c)
    then have "c \<in> set (sockets s)" using wf_resolved[OF assms] by blast
    with Some Cons show ?thesis by (auto simp: receivers_IoTo)
  qed
qed

lemma to_members_packets: "e \<in> set (to_members s p M) \<Longrightarrow> snd e = p"
  by (induction M) (auto split: option.splits)

lemma typing_members_receivers:
  assumes "wf_state s"
  shows "receivers (sockets s) (typing_members s i p M) p
           = {c. c \<noteq> i \<and> (\<exists>member \<in> set M. nicknameToSocketId s member = Some c)}"
proof (induction M)
  case Nil
  then show ?case by (simp add: receivers_Nil)
next
  case (Cons a M)
  show ?case
  proof (cases "nicknameToSocketId s a")
    case None
    with Cons show ?thesis by auto
  next
    case (Some c)
    then have "c \<in> set (sockets s)" using wf_resolved[OF assms] by blast
    with Some Cons show ?thesis by (auto simp: receivers_IoTo)
  qed
qed

lemma typing_members_packets: "e \<in> set (typing_members s i p M) \<Longrightarrow> snd e = p"
  by (induction M) (auto split: option.splits if_splits)

lemma notify_members_packets:
  "e \<in> set (notify_members s ms) \<Longrightarrow> \<exists>c gs. e = (IoTo c, GroupList gs)"
  by (induction ms) (auto split: option.splits)

lemma notify_members_not_to:
  assumes "users_get s i = None"
  shows "inbox socks (notify_members s ms) i = []"
proof (induction ms)
  case Nil
  then show ?case by (simp add: inbox_Nil)
next
  case (Cons a ms)
  show ?case
  proof (cases "nicknameToSocketId s a")
    case None
    with Cons show ?thesis by simp
  next
    case (Some c)
    from nicknameToSocketId_SomeD[OF Some] have "map_of (users s) c \<noteq> None"
      by (auto simp: map_of_eq_None_iff intro: rev_image_eqI)
    with assms have "c \<noteq> i" by (auto simp: users_get_def)
    with Some Cons show ?thesis by (simp add: inbox_Cons)
  qed
qed

subsection \<open>Filtering the history\<close>

lemma visible_readable: "readable s m \<Longrightarrow> visible s n m \<noteq> None"
  by (auto simp: readable_def visible_def split: property.splits)

lemma filter_msgs_readable:
  "list_all (readable s) h \<Longrightarrow> filter_msgs s n h = Some (filter (\<lambda>m. visible s n m = Some True) h)"
proof (induction h)
  case Nil
  then show ?case by simp
next
  case (Cons m h)
  then have "visible s n m \<noteq> None" by (simp add: visible_readable)
  then obtain b where "visible s n m = Some b" by auto
  with Cons show ?case by simp
qed

lemma readable_push:
  "history_readable s \<Longrightarrow> readable s m \<Longrightarrow> history_readable (push_history s m)"
  by (simp add: history_readable_def push_history_def readable_def list_all_iff)

lemma filterHistory_readable:
  "history_readable s \<Longrightarrow>
   filterHistoryForNickname s n = Some (filter (\<lambda>m. visible s n m = Some True) (chatHistory s))"
  by (simp add: filterHistoryForNickname_def history_readable_def filter_msgs_readable)

subsection \<open>Creating a group\<close>

lemma validMembers_none_connected:
  assumes "\<forall>n \<in> set ms. n \<notin> set (object_values (users s))"
  shows "validMembers s i ms =
           (case users_get s i of None \<Rightarrow> [] | Some z \<Rightarrow> if nick_truthy z then [z] else [])"
proof -
  have "filter (\<lambda>n. n \<in> set (object_values (users s))) ms = []"
    using assms by (simp add: filter_empty_conv)
  then show ?thesis by (simp add: validMembers_def Let_def split: option.splits)
qed

lemma create_group_stored:
  assumes "G \<noteq> []" and "ms \<noteq> []" and "obj_get (groups s) G = Undefined"
    and "validMembers s i ms \<noteq> []"
  shows "create_group s i G (Some ms) =
           done_with (s\<lparr>groups := groups s @ [(G, validMembers s i ms)]\<rparr>)
             (notify_members (s\<lparr>groups := groups s @ [(G, validMembers s i ms)]\<rparr>)
                (validMembers s i ms)
              @ [(SocketEmit i, SystemMessage (GroupCreated G (length (validMembers s i ms))))])"
  using assms
  by (simp add: create_group_def Let_def obj_set_fresh[OF obj_get_Undefined_map_of])

lemma create_group_no_members:
  assumes "G \<noteq> []" and "ms \<noteq> []" and "obj_get (groups s) G = Undefined"
    and "validMembers s i ms = []"
  shows "create_group s i G (Some ms) = done_with s [(SocketEmit i, SystemMessage NoValidMembers)]"
  using assms by (simp add: create_group_def Let_def)

lemma create_group_invalid:
  "G = [] \<or> members = None \<or> members = Some [] \<Longrightarrow>
   create_group s i G members = done_with s [(SocketEmit i, SystemMessage InvalidRequest)]"
  by (simp add: create_group_def)

lemma create_group_valid_no_invalid_request:
  assumes "G \<noteq> []" and "members = Some ms" and "ms \<noteq> []"
  shows "\<forall>e \<in> set (emits (create_group s i G members)). snd e \<noteq> SystemMessage InvalidRequest"
  using assms
  by (auto simp: create_group_def Let_def done_with_def dest!: notify_members_packets)

subsection \<open>The reset loop\<close>

lemma reset_each_empty:
  assumes "chatHistory s = []"
  shows "reset_each s es =
           (concat (map (\<lambda>e. [(IoTo (fst e), GroupList []), (IoTo (fst e), ChatHistory [])]) es),
            False)"
  using assms by (induction es) (simp_all add: filterHistoryForNickname_def)

lemma inbox_reset_pairs:
  assumes "distinct (map fst es)"
  shows "inbox socks
           (concat (map (\<lambda>e. [(IoTo (fst e), GroupList []), (IoTo (fst e), ChatHistory [])]) es)) c
         = (if c \<in> set socks \<and> c \<in> fst ` set es then [GroupList [], ChatHistory []] else [])"
  using assms
proof (induction es)
  case Nil
  then show ?case by (simp add: inbox_Nil)
next
  case (Cons e es)
  then show ?case by (auto simp: inbox_Cons)
qed

subsection \<open>What each handler does to the history\<close>














lemma history_typing: "post (typing s i type target) = s"
  by (simp add: typing_def Let_def done_with_def throws_def split: option.splits property.splits)











subsection \<open>Well-formed states\<close>

text \<open>
  Every handler keeps a well-formed state well-formed and a readable history
  readable, so both hold in every state reached from a start with a readable history
  file, in particular from an empty one.
\<close>

lemma wf_state_cong:
  "sockets t = sockets s \<Longrightarrow> users t = users s \<Longrightarrow> groups t = groups s \<Longrightarrow>
   wf_state t = wf_state s"
  by (simp add: wf_state_def)

lemma wf_push_history: "wf_state (push_history s m) = wf_state s"
  by (rule wf_state_cong) (simp_all add: push_history_def)

lemma wf_connection:
  assumes "wf_state s" and "i \<noteq> []" and "i \<notin> set object_prototype_names"
    and "i \<notin> set (sockets s)"
  shows "wf_state (post (connection s i))"
  using assms by (auto simp: wf_state_def connection_def done_with_def list_all_iff)

lemma post_set_nickname: "post (set_nickname s i n) = s\<lparr>users := obj_set (users s) i n\<rparr>"
  by (simp add: set_nickname_def Let_def done_with_def throws_def split: option.splits)

lemma wf_set_nickname:
  assumes "wf_state s" and "i \<in> set (sockets s)"
  shows "wf_state (post (set_nickname s i n))"
proof -
  have "fst ` set (obj_set (users s) i n) \<subseteq> set (sockets s)"
    using assms by (auto simp: keys_obj_set wf_state_def list_all_iff)
  then show ?thesis
    using assms(1) by (auto simp: post_set_nickname wf_state_def list_all_iff distinct_obj_set)
qed

lemma wf_chat_private: "wf_state s \<Longrightarrow> wf_state (post (chat_private s i t b now))"
  by (simp add: chat_private_def Let_def done_with_def wf_push_history split: option.splits)

lemma wf_chat_group: "wf_state s \<Longrightarrow> wf_state (post (chat_group s i G b now))"
  by (simp add: chat_group_def Let_def done_with_def throws_def wf_push_history
      split: option.splits property.splits)

lemma wf_create_group:
  assumes "wf_state s"
  shows "wf_state (post (create_group s i G members))"
proof (cases "G \<noteq> [] \<and> obj_get (groups s) G = Undefined")
  case False
  then show ?thesis
    using assms by (auto simp: create_group_def Let_def done_with_def)
next
  case True
  then have G: "G \<noteq> []" "G \<notin> set object_prototype_names"
    by (simp_all add: obj_get_Undefined_iff)
  have "wf_state (s\<lparr>groups := obj_set (groups s) G v\<rparr>)" for v
    using assms G by (auto simp: wf_state_def list_all_iff distinct_obj_set keys_obj_set)
  then show ?thesis
    using assms by (simp add: create_group_def Let_def done_with_def)
qed

lemma wf_disconnect:
  assumes "wf_state s"
  shows "wf_state (post (disconnect s i))"
proof -
  have "distinct (map fst (obj_delete (users s) i))"
    using assms by (simp add: wf_state_def obj_delete_def distinct_map_filter)
  moreover have "fst ` set (obj_delete (users s) i) \<subseteq> set (removeAll i (sockets s))"
    using assms by (auto simp: wf_state_def obj_delete_def list_all_iff)
  ultimately show ?thesis
    using assms
    by (auto simp: disconnect_def Let_def done_with_def wf_state_def list_all_iff distinct_removeAll)
qed

lemma wf_reset: "wf_state s \<Longrightarrow> wf_state (post (reset s))"
  by (simp add: reset_def Let_def wf_state_def split: prod.splits)

lemma wf_handle:
  assumes "wf_state s" and "can_occur s e"
  shows "wf_state (post (handle s e))"
proof (cases e)
  case (ChatPublic i msg now)
  then show ?thesis
    using assms by (simp add: chat_public_def Let_def done_with_def wf_push_history)
qed (use assms in \<open>simp_all add: wf_connection wf_set_nickname wf_chat_private wf_chat_group
      wf_create_group history_typing wf_disconnect wf_reset\<close>)

lemma reachable_wf:
  assumes "reachable_from s0 s" and "wf_state s0"
  shows "wf_state s"
  using assms by (induction rule: reachable_from.induct) (simp_all add: wf_handle)

lemma wf_initial: "wf_state (initial h)"
  by (simp add: wf_state_def initial_def)

lemma history_readable_cong:
  "groups t = groups s \<Longrightarrow> chatHistory t = chatHistory s \<Longrightarrow>
   history_readable t = history_readable s"
  by (simp add: history_readable_def list_all_iff readable_def)

lemma readable_set_nickname:
  "history_readable s \<Longrightarrow> history_readable (post (set_nickname s i n))"
  by (simp add: post_set_nickname history_readable_def list_all_iff readable_def)

lemma readable_chat_public:
  "history_readable s \<Longrightarrow> history_readable (post (chat_public s i msg now))"
  by (simp add: chat_public_def Let_def done_with_def readable_push readable_def
      public_message_def)

lemma readable_chat_private:
  "history_readable s \<Longrightarrow> history_readable (post (chat_private s i t b now))"
  by (simp add: chat_private_def Let_def done_with_def readable_push readable_def
      private_message_def split: option.splits)

lemma readable_chat_group:
  "history_readable s \<Longrightarrow> history_readable (post (chat_group s i G b now))"
  by (simp add: chat_group_def Let_def done_with_def throws_def readable_push readable_def
      group_message_def prop_key_def split: option.splits property.splits)

lemma readable_create_group:
  assumes "history_readable s"
  shows "history_readable (post (create_group s i G members))"
proof -
  have "history_readable (s\<lparr>groups := obj_set (groups s) G v\<rparr>)" for v
    using assms
    by (auto simp: history_readable_def list_all_iff readable_def obj_get_obj_set_not_inherited)
  then show ?thesis
    using assms by (simp add: create_group_def Let_def done_with_def)
qed

lemma readable_handle:
  assumes "history_readable s"
  shows "history_readable (post (handle s e))"
proof (cases e)
  case (Connection i)
  then show ?thesis
    using assms by (simp add: connection_def done_with_def history_readable_def list_all_iff readable_def)
next
  case (Disconnect i)
  then show ?thesis
    using assms
    by (simp add: disconnect_def Let_def done_with_def history_readable_def list_all_iff readable_def)
next
  case Reset
  then show ?thesis
    by (simp add: reset_def Let_def history_readable_def split: prod.splits)
qed (use assms in \<open>simp_all add: readable_set_nickname readable_chat_public readable_chat_private
      readable_chat_group readable_create_group history_typing\<close>)

lemma reachable_readable:
  assumes "reachable_from s0 s" and "history_readable s0"
  shows "history_readable s"
  using assms by (induction rule: reachable_from.induct) (simp_all add: readable_handle)

lemma initial_empty_readable: "history_readable (initial [])"
  by (simp add: history_readable_def initial_def)

lemma reached_state_ok:
  assumes "reachable_from (initial h) s" and "history_readable (initial h)"
  shows "wf_state s \<and> history_readable s"
  using reachable_wf[OF assms(1) wf_initial] reachable_readable[OF assms] by simp

subsection \<open>The example states are reached by the server\<close>

lemma reachable_step:
  assumes "reachable_from s0 s" and "can_occur s e" and "handle s e = done_with s' es"
  shows "reachable_from s0 s'"
proof -
  have "\<not> threw (handle s e)" "post (handle s e) = s'"
    using assms(3) by (simp_all add: done_with_def)
  with reachable_from.step[OF assms(1,2)] show ?thesis by simp
qed

lemma set_nickname_fresh_history:
  "chatHistory s = [] \<Longrightarrow> groups s = [] \<Longrightarrow>
   set_nickname s i n =
     done_with (s\<lparr>users := obj_set (users s) i n\<rparr>)
       [(IoEmit, UserList (object_values (obj_set (users s) i n))),
        (SocketEmit i, ChatHistory []), (SocketEmit i, GroupList [])]"
  by (simp add: set_nickname_def Let_def filterHistoryForNickname_def myGroups_def)

lemma c1_reachable: "reachable_from (initial []) c1_state"
proof -
  let ?a = "\<lparr>sockets = [''s1''], users = [], groups = [], chatHistory = []\<rparr>"
  let ?b = "\<lparr>sockets = [''s1'', ''s2''], users = [], groups = [], chatHistory = []\<rparr>"
  let ?c = "\<lparr>sockets = [''s1'', ''s2''], users = [(''s1'', Name [])], groups = [], chatHistory = []\<rparr>"
  have 0: "reachable_from (initial []) (initial [])" by (rule reachable_from.start)
  have "handle (initial []) (Connection ''s1'') = done_with ?a []"
    by (simp add: initial_def connection_def)
  from reachable_step[OF 0 _ this] have 1: "reachable_from (initial []) ?a"
    by (simp add: initial_def object_prototype_names_def)
  have "handle ?a (Connection ''s2'') = done_with ?b []"
    by (simp add: connection_def)
  from reachable_step[OF 1 _ this] have 2: "reachable_from (initial []) ?b"
    by (simp add: object_prototype_names_def)
  have "handle ?b (SetNickname ''s1'' (Name [])) = done_with ?c
          [(IoEmit, UserList (object_values (obj_set [] ''s1'' (Name [])))),
           (SocketEmit ''s1'', ChatHistory []), (SocketEmit ''s1'', GroupList [])]"
    by (simp add: set_nickname_fresh_history)
  from reachable_step[OF 2 _ this] have 3: "reachable_from (initial []) ?c" by simp
  have "handle ?c (SetNickname ''s2'' (Name ''bob'')) = done_with c1_state
          [(IoEmit, UserList (object_values (obj_set [(''s1'', Name [])] ''s2'' (Name ''bob'')))),
           (SocketEmit ''s2'', ChatHistory []), (SocketEmit ''s2'', GroupList [])]"
    by (simp add: set_nickname_fresh_history c1_state_def)
  from reachable_step[OF 3 _ this] show ?thesis by simp
qed

lemma c2_reachable: "reachable_from (initial []) c2_state"
proof -
  let ?a = "\<lparr>sockets = [''s1''], users = [], groups = [], chatHistory = []\<rparr>"
  let ?b = "\<lparr>sockets = [''s1''], users = [(''s1'', Name [])], groups = [], chatHistory = []\<rparr>"
  have 0: "reachable_from (initial []) (initial [])" by (rule reachable_from.start)
  have "handle (initial []) (Connection ''s1'') = done_with ?a []"
    by (simp add: initial_def connection_def)
  from reachable_step[OF 0 _ this] have 1: "reachable_from (initial []) ?a"
    by (simp add: initial_def object_prototype_names_def)
  have "handle ?a (SetNickname ''s1'' (Name []))
          = done_with ?b [(IoEmit, UserList [Name []]), (SocketEmit ''s1'', ChatHistory []),
                          (SocketEmit ''s1'', GroupList [])]"
    by (simp add: set_nickname_def Let_def filterHistoryForNickname_def myGroups_def
        object_values_def object_entries_plain)
  from reachable_step[OF 1 _ this] have 2: "reachable_from (initial []) ?b" by simp
  have "handle ?b (CreateGroup ''s1'' ''G'' (Some [Name []]))
          = done_with c2_state [(IoTo ''s1'', GroupList [''G'']),
                                (SocketEmit ''s1'', SystemMessage (GroupCreated ''G'' 1))]"
    by (simp add: create_group_def obj_get_def object_prototype_names_def validMembers_def
        users_get_def object_values_def object_entries_plain Let_def c2_state_def
        nicknameToSocketId_def myGroups_def)
  from reachable_step[OF 2 _ this] show ?thesis by simp
qed

lemma c3_bare_reachable: "reachable_from (initial []) c3_bare"
proof -
  have 0: "reachable_from (initial []) (initial [])" by (rule reachable_from.start)
  have "handle (initial []) (Connection ''s1'') = done_with c3_bare []"
    by (simp add: initial_def connection_def c3_bare_def)
  from reachable_step[OF 0 _ this] show ?thesis
    by (simp add: initial_def object_prototype_names_def)
qed

lemma c3_reachable: "reachable_from (initial []) c3_state"
proof -
  have "handle c3_bare (SetNickname ''s1'' (Name ''z'')) = done_with c3_state
          [(IoEmit, UserList (object_values (obj_set [] ''s1'' (Name ''z'')))),
           (SocketEmit ''s1'', ChatHistory []), (SocketEmit ''s1'', GroupList [])]"
    by (simp add: set_nickname_fresh_history c3_bare_def c3_state_def)
  from reachable_step[OF c3_bare_reachable _ this] show ?thesis by (simp add: c3_bare_def)
qed

lemma c5_reachable: "reachable_from (initial []) c5_state"
proof -
  let ?a = "\<lparr>sockets = [''s1''], users = [], groups = [], chatHistory = []\<rparr>"
  let ?b = "\<lparr>sockets = [''s1'', ''s2''], users = [], groups = [], chatHistory = []\<rparr>"
  let ?c = "\<lparr>sockets = [''s1'', ''s2''], users = [(''s1'', Name ''ann'')], groups = [],
             chatHistory = []\<rparr>"
  let ?d = "\<lparr>sockets = [''s1'', ''s2''], users = [(''s1'', Name ''ann'')],
             groups = [(''G'', [Name ''ann''])], chatHistory = []\<rparr>"
  have 0: "reachable_from (initial []) (initial [])" by (rule reachable_from.start)
  have "handle (initial []) (Connection ''s1'') = done_with ?a []"
    by (simp add: initial_def connection_def)
  from reachable_step[OF 0 _ this] have 1: "reachable_from (initial []) ?a"
    by (simp add: initial_def object_prototype_names_def)
  have "handle ?a (Connection ''s2'') = done_with ?b []"
    by (simp add: connection_def)
  from reachable_step[OF 1 _ this] have 2: "reachable_from (initial []) ?b"
    by (simp add: object_prototype_names_def)
  have "handle ?b (SetNickname ''s1'' (Name ''ann'')) = done_with ?c
          [(IoEmit, UserList (object_values (obj_set [] ''s1'' (Name ''ann'')))),
           (SocketEmit ''s1'', ChatHistory []), (SocketEmit ''s1'', GroupList [])]"
    by (simp add: set_nickname_fresh_history)
  from reachable_step[OF 2 _ this] have 3: "reachable_from (initial []) ?c" by simp
  have "handle ?c (CreateGroup ''s1'' ''G'' (Some [Name ''ann'']))
          = done_with ?d [(IoTo ''s1'', GroupList [''G'']),
                          (SocketEmit ''s1'', SystemMessage (GroupCreated ''G'' 1))]"
    by (simp add: create_group_def obj_get_def object_prototype_names_def validMembers_def
        users_get_def object_values_def object_entries_plain Let_def
        nicknameToSocketId_def myGroups_def)
  from reachable_step[OF 3 _ this] have 4: "reachable_from (initial []) ?d" by simp
  have "handle ?d (ChatPublic ''s1'' (Str ''hi'') 0)
          = done_with c5_state [(IoEmit, ChatMessage c5_message)]"
    by (simp add: chat_public_def public_message_def sender_name_def users_get_def Let_def
        push_history_def c5_state_def c5_message_def)
  from reachable_step[OF 4 _ this] show ?thesis by simp
qed

subsection \<open>Evaluations on the example states\<close>

lemma c1_resolve: "nicknameToSocketId c1_state (Name ''bob'') = Some ''s2''"
  by (simp add: c1_state_def nicknameToSocketId_def object_entries_def)

lemma c1_message: "private_message c1_state ''s1'' (Name ''bob'') hi 0 =
   \<lparr>id_m = ''s1'', name_m = Name ''Desconocido'', text_m = ''hi'', image_m = None,
    time_m = 0, type_m = ''private'', target_m = (Name ''bob'')\<rparr>"
  by (simp add: c1_state_def hi_def private_message_def sender_name_def users_get_def
      text_of_def image_of_def isImage_def)

lemma c1_post: "post (chat_private c1_state ''s1'' (Name ''bob'') hi 0)
    = c1_state\<lparr>chatHistory := [private_message c1_state ''s1'' (Name ''bob'') hi 0]\<rparr>"
  by (simp add: chat_private_def c1_resolve Let_def done_with_def push_history_def)
     (simp add: c1_state_def)

lemma c1_vis1: "visible (c1_state\<lparr>chatHistory := h\<rparr>) (Name []) (private_message c1_state ''s1'' (Name ''bob'') hi 0) = Some False"
  unfolding c1_message by (simp add: visible_def)

lemma c1_vis2: "visible (c1_state\<lparr>chatHistory := h\<rparr>) (Name ''Desconocido'') (private_message c1_state ''s1'' (Name ''bob'') hi 0) = Some True"
  unfolding c1_message by (simp add: visible_def)

lemma c2_user: "users_get c2_state ''s1'' = Some (Name [])"
  by (simp add: c2_state_def users_get_def)

lemma c2_group: "obj_get (groups c2_state) ''G'' = Own [Name []]"
  by (simp add: c2_state_def obj_get_def)

lemma c3_create:
  "create_group c3_state ''s1'' ''G'' (Some [Name ''y''])
     = done_with (c3_state\<lparr>groups := [(''G'', [Name ''z''])]\<rparr>)
         [(IoTo ''s1'', GroupList [''G'']),
          (SocketEmit ''s1'', SystemMessage (GroupCreated ''G'' 1))]"
  by (simp add: create_group_def obj_get_def object_prototype_names_def validMembers_def
      users_get_def object_values_def object_entries_plain Let_def c3_state_def
      nicknameToSocketId_def myGroups_def)

lemma c3_create_bare:
  "create_group c3_bare ''s1'' ''G'' (Some [Name ''y''])
     = done_with c3_bare [(SocketEmit ''s1'', SystemMessage NoValidMembers)]"
  by (simp add: create_group_def obj_get_def object_prototype_names_def validMembers_def
      users_get_def object_values_def Let_def c3_bare_def)




lemma c5_wf: "wf_state c5_state"
  by (simp add: wf_state_def c5_state_def object_prototype_names_def)

lemma c5_values: "object_values (users c5_state) = [Name ''ann'']"
  by (simp add: c5_state_def object_values_def object_entries_plain)

lemma c10_wf: "wf_state c10_state"
  by (simp add: wf_state_def c10_state_def object_prototype_names_def)

lemma c10_group: "obj_get (groups c10_state) ''G'' = Own [Name ''x'', Name ''z'']"
  by (simp add: c10_state_def obj_get_def)

lemma c10_resolve:
  "nicknameToSocketId c10_state (Name ''x'') = Some ''s1''"
  "nicknameToSocketId c10_state (Name ''z'') = Some ''s2''"
  by (simp_all add: nicknameToSocketId_def c10_state_def object_entries_plain)

lemma c10_dup_reachable: "reachable_from (initial []) c10_dup"
proof -
  let ?a = "\<lparr>sockets = [''s1''], users = [], groups = [], chatHistory = []\<rparr>"
  let ?b = "\<lparr>sockets = [''s1'', ''s2''], users = [], groups = [], chatHistory = []\<rparr>"
  let ?c = "\<lparr>sockets = [''s1'', ''s2'', ''s3''], users = [], groups = [], chatHistory = []\<rparr>"
  let ?d = "\<lparr>sockets = [''s1'', ''s2'', ''s3''], users = [(''s1'', Name ''x'')], groups = [],
             chatHistory = []\<rparr>"
  let ?e = "\<lparr>sockets = [''s1'', ''s2'', ''s3''],
             users = [(''s1'', Name ''x''), (''s2'', Name ''x'')], groups = [],
             chatHistory = []\<rparr>"
  let ?f = "\<lparr>sockets = [''s1'', ''s2'', ''s3''],
             users = [(''s1'', Name ''x''), (''s2'', Name ''x''), (''s3'', Name ''z'')],
             groups = [], chatHistory = []\<rparr>"
  have 0: "reachable_from (initial []) (initial [])" by (rule reachable_from.start)
  have "handle (initial []) (Connection ''s1'') = done_with ?a []"
    by (simp add: initial_def connection_def)
  from reachable_step[OF 0 _ this] have 1: "reachable_from (initial []) ?a"
    by (simp add: initial_def object_prototype_names_def)
  have "handle ?a (Connection ''s2'') = done_with ?b []"
    by (simp add: connection_def)
  from reachable_step[OF 1 _ this] have 2: "reachable_from (initial []) ?b"
    by (simp add: object_prototype_names_def)
  have "handle ?b (Connection ''s3'') = done_with ?c []"
    by (simp add: connection_def)
  from reachable_step[OF 2 _ this] have 3: "reachable_from (initial []) ?c"
    by (simp add: object_prototype_names_def)
  have "handle ?c (SetNickname ''s1'' (Name ''x'')) = done_with ?d
          [(IoEmit, UserList (object_values (obj_set [] ''s1'' (Name ''x'')))),
           (SocketEmit ''s1'', ChatHistory []), (SocketEmit ''s1'', GroupList [])]"
    by (simp add: set_nickname_fresh_history)
  from reachable_step[OF 3 _ this] have 4: "reachable_from (initial []) ?d" by simp
  have "handle ?d (SetNickname ''s2'' (Name ''x'')) = done_with ?e
          [(IoEmit, UserList (object_values (obj_set [(''s1'', Name ''x'')] ''s2'' (Name ''x'')))),
           (SocketEmit ''s2'', ChatHistory []), (SocketEmit ''s2'', GroupList [])]"
    by (simp add: set_nickname_fresh_history)
  from reachable_step[OF 4 _ this] have 5: "reachable_from (initial []) ?e" by simp
  have "handle ?e (SetNickname ''s3'' (Name ''z'')) = done_with ?f
          [(IoEmit, UserList (object_values
              (obj_set [(''s1'', Name ''x''), (''s2'', Name ''x'')] ''s3'' (Name ''z'')))),
           (SocketEmit ''s3'', ChatHistory []), (SocketEmit ''s3'', GroupList [])]"
    by (simp add: set_nickname_fresh_history)
  from reachable_step[OF 5 _ this] have 6: "reachable_from (initial []) ?f" by simp
  have "handle ?f (CreateGroup ''s3'' ''G'' (Some [Name ''x'']))
          = done_with c10_dup [(IoTo ''s1'', GroupList [''G'']), (IoTo ''s3'', GroupList [''G'']),
                               (SocketEmit ''s3'', SystemMessage (GroupCreated ''G'' 2))]"
    by (simp add: create_group_def obj_get_def object_prototype_names_def validMembers_def
        users_get_def object_values_def object_entries_plain Let_def c10_dup_def
        nicknameToSocketId_def myGroups_def numeral_2_eq_2)
  from reachable_step[OF 6 _ this] show ?thesis by simp
qed

lemma c10_dup_resolve:
  "nicknameToSocketId c10_dup (Name ''x'') = Some ''s1''"
  "nicknameToSocketId c10_dup (Name ''z'') = Some ''s3''"
  by (simp_all add: nicknameToSocketId_def c10_dup_def object_entries_plain)

lemma c10_dup_group: "obj_get (groups c10_dup) ''G'' = Own [Name ''x'', Name ''z'']"
  by (simp add: c10_dup_def obj_get_def)

lemma c10_dup_user: "users_get c10_dup ''s2'' = Some (Name ''x'')"
  by (simp add: c10_dup_def users_get_def)

section \<open>The claims\<close>

subsection \<open>C1: private messages\<close>

text \<open>
  C1, as amended. Let a connected socket \<open>i\<close> whose nickname \<open>A\<close> is truthy (a non-empty
  string) send a private message to \<open>B\<close>, and let \<open>B\<close> resolve to the socket \<open>t\<close>. Then
  the message is appended to the history, the handler emits it twice and nothing else, the sockets
  that receive it are exactly \<open>i\<close> and \<open>t\<close>, the socket \<open>t\<close> holds the nickname \<open>B\<close>, and
  for every nickname \<open>C\<close> the filtered history of \<open>C\<close> exists and contains the message
  exactly when \<open>C\<close> is \<open>A\<close> or \<open>B\<close>.
\<close>

theorem private_delivery_and_visibility:
  assumes wf: "wf_state s" and rd: "history_readable s"
    and i: "i \<in> set (sockets s)" and A: "users_get s i = Some A" "nick_truthy A"
    and t: "nicknameToSocketId s B = Some t"
    and m: "m = private_message s i B b now" and o: "out = chat_private s i B b now"
  shows "\<not> threw out
    \<and> chatHistory (post out) = chatHistory s @ [m]
    \<and> emits out = [(SocketEmit i, ChatMessage m), (IoTo t, ChatMessage m)]
    \<and> receivers (sockets s) (emits out) (ChatMessage m) = {i, t}
    \<and> users_get s t = Some B
    \<and> (\<forall>C. \<exists>h. filterHistoryForNickname (post out) C = Some h
              \<and> (m \<in> set h \<longleftrightarrow> C = A \<or> C = B))"
proof -
  have out: "out = done_with (push_history s m) [(SocketEmit i, ChatMessage m), (IoTo t, ChatMessage m)]"
    using t by (simp add: o m chat_private_def Let_def)
  have tt: "t \<in> set (sockets s)" "users_get s t = Some B"
    using wf_resolved[OF wf t] by simp_all
  have rcv: "receivers (sockets s) (emits out) (ChatMessage m) = {i, t}"
    using i tt(1) by (auto simp: out done_with_def receivers_def inbox_Cons inbox_Nil)
  have mm: "type_m m = ''private''" "name_m m = A" "target_m m = B"
    using A by (simp_all add: m private_message_def sender_name_Some)
  have "readable s m" by (simp add: readable_def mm)
  then have rd': "history_readable (post out)"
    using rd by (simp add: out done_with_def readable_push)
  have vis: "visible (post out) C m = Some (C = A \<or> C = B)" for C
    using mm by (auto simp: visible_def)
  have hist: "chatHistory (post out) = chatHistory s @ [m]"
    by (simp add: out done_with_def push_history_def)
  have "\<exists>h. filterHistoryForNickname (post out) C = Some h \<and> (m \<in> set h \<longleftrightarrow> C = A \<or> C = B)" for C
    unfolding filterHistory_readable[OF rd'] hist using vis[of C] by simp
  then show ?thesis
    using rcv tt(2) hist by (simp add: out done_with_def)
qed

text \<open>An instance: ann writes to bob, and cid does not see the message.\<close>

theorem private_delivery_and_visibility_witness:
  "receivers (sockets c1w_state) (emits (chat_private c1w_state ''s1'' (Name ''bob'') hi 0))
      (ChatMessage (private_message c1w_state ''s1'' (Name ''bob'') hi 0)) = {''s1'', ''s2''}
   \<and> (\<exists>h. filterHistoryForNickname (post (chat_private c1w_state ''s1'' (Name ''bob'') hi 0)) (Name ''cid'') = Some h
          \<and> private_message c1w_state ''s1'' (Name ''bob'') hi 0 \<notin> set h)"
proof -
  have wf: "wf_state c1w_state"
    by (simp add: wf_state_def c1w_state_def object_prototype_names_def)
  have rd: "history_readable c1w_state"
    by (simp add: history_readable_def c1w_state_def)
  have i: "''s1'' \<in> set (sockets c1w_state)" by (simp add: c1w_state_def)
  have A: "users_get c1w_state ''s1'' = Some (Name ''ann'')" "nick_truthy (Name ''ann'')"
    by (simp_all add: users_get_def c1w_state_def nick_truthy_def)
  have t: "nicknameToSocketId c1w_state (Name ''bob'') = Some ''s2''"
    by (simp add: nicknameToSocketId_def c1w_state_def object_entries_def array_index_def)
  note th = private_delivery_and_visibility[OF wf rd i A t refl refl, of hi 0]
  from th have r: "receivers (sockets c1w_state) (emits (chat_private c1w_state ''s1'' (Name ''bob'') hi 0))
      (ChatMessage (private_message c1w_state ''s1'' (Name ''bob'') hi 0)) = {''s1'', ''s2''}"
    by (elim conjE)
  from th have "\<forall>C. \<exists>h. filterHistoryForNickname (post (chat_private c1w_state ''s1'' (Name ''bob'') hi 0)) C = Some h
      \<and> (private_message c1w_state ''s1'' (Name ''bob'') hi 0 \<in> set h \<longleftrightarrow> C = Name ''ann'' \<or> C = (Name ''bob''))"
    by (elim conjE)
  then have "\<exists>h. filterHistoryForNickname (post (chat_private c1w_state ''s1'' (Name ''bob'') hi 0)) (Name ''cid'') = Some h
      \<and> (private_message c1w_state ''s1'' (Name ''bob'') hi 0 \<in> set h \<longleftrightarrow> (Name ''cid'') = Name ''ann'' \<or> (Name ''cid'') = (Name ''bob''))"
    by (rule spec)
  then show ?thesis using r by simp
qed

text \<open>
  As stated for every nickname \<open>A\<close>, C1 fails for the empty nickname: the sender's
  name is then recorded as \<open>Desconocido\<close>, so the stored message is missing from the
  filtered history of the sender's nickname and present in that of \<open>Desconocido\<close>.
\<close>

theorem private_visibility_empty_nickname:
  "reachable_from (initial []) c1_state
   \<and> users_get c1_state ''s1'' = Some (Name [])
   \<and> nicknameToSocketId c1_state (Name ''bob'') = Some ''s2''
   \<and> chatHistory (post (chat_private c1_state ''s1'' (Name ''bob'') hi 0))
       = [private_message c1_state ''s1'' (Name ''bob'') hi 0]
   \<and> name_m (private_message c1_state ''s1'' (Name ''bob'') hi 0) = Name ''Desconocido''
   \<and> filterHistoryForNickname (post (chat_private c1_state ''s1'' (Name ''bob'') hi 0)) (Name []) = Some []
   \<and> filterHistoryForNickname (post (chat_private c1_state ''s1'' (Name ''bob'') hi 0)) (Name ''Desconocido'')
       = Some [private_message c1_state ''s1'' (Name ''bob'') hi 0]"
proof -
  have "users_get c1_state ''s1'' = Some (Name [])"
    by (simp add: c1_state_def users_get_def)
  then show ?thesis
    unfolding c1_post
    by (simp add: c1_reachable c1_resolve filterHistoryForNickname_def c1_vis1 c1_vis2)
       (simp add: c1_message)
qed

subsection \<open>C2: group messages\<close>

text \<open>
  C2, as amended. Let \<open>G\<close> be a group with member list \<open>M\<close>. If the sender's nickname
  is truthy (a non-empty string) and is in \<open>M\<close>, the message is appended to the
  history, every emission carries it, and the sockets that receive it are exactly those that a member of \<open>M\<close>
  resolves to. If the sender has no nickname, or a nickname that is not in \<open>M\<close>, the
  state is unchanged and the only emission is the NotAGroupMember notice to the sender.
\<close>

theorem group_delivery_and_rejection:
  assumes wf: "wf_state s" and G: "obj_get (groups s) G = Own M"
    and out: "out = chat_group s i G b now"
  shows "(\<forall>n. users_get s i = Some n \<and> nick_truthy n \<and> n \<in> set M \<longrightarrow>
            \<not> threw out
            \<and> post out = push_history s (group_message i n G b now)
            \<and> (\<forall>e \<in> set (emits out). snd e = ChatMessage (group_message i n G b now))
            \<and> receivers (sockets s) (emits out) (ChatMessage (group_message i n G b now))
                = {c. \<exists>member \<in> set M. nicknameToSocketId s member = Some c})
       \<and> ((\<forall>n. users_get s i = Some n \<longrightarrow> n \<notin> set M) \<longrightarrow>
            out = done_with s [(SocketEmit i, SystemMessage (NotAGroupMember G))])"
proof -
  have ne: "G \<noteq> []" using wf_group_name[OF wf G] .
  have accept: "out = done_with (push_history s (group_message i n G b now))
                        (to_members s (ChatMessage (group_message i n G b now)) M)"
    if "users_get s i = Some n" "nick_truthy n" "n \<in> set M" for n
    using that ne G by (simp add: out chat_group_def Let_def)
  have reject: "out = done_with s [(SocketEmit i, SystemMessage (NotAGroupMember G))]"
    if "\<forall>n. users_get s i = Some n \<longrightarrow> n \<notin> set M"
    using that ne G by (cases "users_get s i") (simp_all add: out chat_group_def)
  show ?thesis
  proof (intro conjI allI impI)
    fix n assume n: "users_get s i = Some n \<and> nick_truthy n \<and> n \<in> set M"
    then have o: "out = done_with (push_history s (group_message i n G b now))
                        (to_members s (ChatMessage (group_message i n G b now)) M)"
      using accept by blast
    show "\<not> threw out" by (simp add: o done_with_def)
    show "post out = push_history s (group_message i n G b now)" by (simp add: o done_with_def)
    show "\<forall>e \<in> set (emits out). snd e = ChatMessage (group_message i n G b now)"
      by (auto simp: o done_with_def dest: to_members_packets)
    show "receivers (sockets s) (emits out) (ChatMessage (group_message i n G b now))
                = {c. \<exists>member \<in> set M. nicknameToSocketId s member = Some c}"
      by (simp add: o done_with_def to_members_receivers[OF wf])
  next
    assume "\<forall>n. users_get s i = Some n \<longrightarrow> n \<notin> set M"
    then show "out = done_with s [(SocketEmit i, SystemMessage (NotAGroupMember G))]"
      by (rule reject)
  qed
qed

text \<open>An instance: a member's message reaches both members; a socket without nickname is refused.\<close>

theorem group_delivery_and_rejection_witness:
  "post (chat_group c10_state ''s1'' ''G'' hi 0)
     = push_history c10_state (group_message ''s1'' (Name ''x'') ''G'' hi 0)
   \<and> receivers (sockets c10_state) (emits (chat_group c10_state ''s1'' ''G'' hi 0))
        (ChatMessage (group_message ''s1'' (Name ''x'') ''G'' hi 0)) = {''s1'', ''s2''}
   \<and> chat_group c10_state ''s3'' ''G'' hi 0
       = done_with c10_state [(SocketEmit ''s3'', SystemMessage (NotAGroupMember ''G''))]"
proof -
  let ?m = "group_message ''s1'' (Name ''x'') ''G'' hi 0"
  let ?out = "chat_group c10_state ''s1'' ''G'' hi 0"
  have x: "users_get c10_state ''s1'' = Some (Name ''x'') \<and> nick_truthy (Name ''x'') \<and> Name ''x'' \<in> set [Name ''x'', Name ''z'']"
    by (simp add: c10_state_def users_get_def)
  have no: "\<forall>n. users_get c10_state ''s3'' = Some n \<longrightarrow> n \<notin> set [Name ''x'', Name ''z'']"
    by (simp add: c10_state_def users_get_def)
  note a = group_delivery_and_rejection[OF c10_wf c10_group refl, of "''s1''" hi 0]
  note r = group_delivery_and_rejection[OF c10_wf c10_group refl, of "''s3''" hi 0]
  from a have "\<forall>n. users_get c10_state ''s1'' = Some n \<and> nick_truthy n \<and> n \<in> set [Name ''x'', Name ''z''] \<longrightarrow>
            \<not> threw ?out
            \<and> post ?out = push_history c10_state (group_message ''s1'' n ''G'' hi 0)
            \<and> (\<forall>e \<in> set (emits ?out). snd e = ChatMessage (group_message ''s1'' n ''G'' hi 0))
            \<and> receivers (sockets c10_state) (emits ?out) (ChatMessage (group_message ''s1'' n ''G'' hi 0))
                = {c. \<exists>member \<in> set [Name ''x'', Name ''z'']. nicknameToSocketId c10_state member = Some c}"
    by (elim conjE)
  then have "users_get c10_state ''s1'' = Some (Name ''x'') \<and> nick_truthy (Name ''x'') \<and> Name ''x'' \<in> set [Name ''x'', Name ''z''] \<longrightarrow>
            \<not> threw ?out
            \<and> post ?out = push_history c10_state ?m
            \<and> (\<forall>e \<in> set (emits ?out). snd e = ChatMessage ?m)
            \<and> receivers (sockets c10_state) (emits ?out) (ChatMessage ?m)
                = {c. \<exists>member \<in> set [Name ''x'', Name ''z'']. nicknameToSocketId c10_state member = Some c}"
    by (rule spec)
  from this x have acc: "post ?out = push_history c10_state ?m"
    "receivers (sockets c10_state) (emits ?out) (ChatMessage ?m)
                = {c. \<exists>member \<in> set [Name ''x'', Name ''z'']. nicknameToSocketId c10_state member = Some c}"
    by simp_all
  have "{c. \<exists>member \<in> set [Name ''x'', Name ''z'']. nicknameToSocketId c10_state member = Some c}
          = {''s1'', ''s2''}"
    by (auto simp: c10_resolve)
  with acc have recv: "receivers (sockets c10_state) (emits ?out) (ChatMessage ?m) = {''s1'', ''s2''}"
    by simp
  from r no have "chat_group c10_state ''s3'' ''G'' hi 0
       = done_with c10_state [(SocketEmit ''s3'', SystemMessage (NotAGroupMember ''G''))]"
    by (elim conjE) (rule mp)
  with acc(1) recv show ?thesis by simp
qed

text \<open>
  As stated for every member, C2 fails for a member whose nickname is empty: the
  guard \<open>!senderNick\<close> refuses the sender although its nickname is in the member list.
\<close>

theorem group_send_empty_nickname:
  "reachable_from (initial []) c2_state
   \<and> obj_get (groups c2_state) ''G'' = Own [Name []]
   \<and> users_get c2_state ''s1'' = Some (Name [])
   \<and> Name [] \<in> set [Name []]
   \<and> chat_group c2_state ''s1'' ''G'' hi 0
       = done_with c2_state [(SocketEmit ''s1'', SystemMessage (NotAGroupMember ''G''))]"
proof -
  have "chat_group c2_state ''s1'' ''G'' hi 0
       = done_with c2_state [(SocketEmit ''s1'', SystemMessage (NotAGroupMember ''G''))]"
    by (simp add: chat_group_def c2_user c2_group)
  then show ?thesis by (simp add: c2_reachable c2_user c2_group)
qed

subsection \<open>C3: InvalidRequest on group creation\<close>

text \<open>
  C3, as amended. Creating a group emits the InvalidRequest notice exactly when the
  group name is empty, or the member field is not an array, or the proposed list is
  empty as sent (before any filtering); then nothing is stored. When a non-empty
  proposed list is filtered out entirely, for a fresh non-empty name: a creator with
  a truthy nickname gets the group stored with the creator as its only member, and a
  creator without one gets the NoValidMembers notice and nothing is stored.
\<close>

theorem create_group_invalid_request:
  assumes out: "out = create_group s i G members"
  shows "((\<exists>e \<in> set (emits out). snd e = SystemMessage InvalidRequest)
            \<longleftrightarrow> (G = [] \<or> members = None \<or> members = Some []))
       \<and> (G = [] \<or> members = None \<or> members = Some [] \<longrightarrow>
            out = done_with s [(SocketEmit i, SystemMessage InvalidRequest)])
       \<and> (\<forall>ms. G \<noteq> [] \<and> obj_get (groups s) G = Undefined \<and> members = Some ms \<and> ms \<noteq> []
              \<and> (\<forall>n \<in> set ms. n \<notin> set (object_values (users s))) \<longrightarrow>
            (\<forall>z. users_get s i = Some z \<and> nick_truthy z \<longrightarrow>
               \<not> threw out \<and> groups (post out) = groups s @ [(G, [z])])
            \<and> ((\<forall>z. users_get s i = Some z \<longrightarrow> \<not> nick_truthy z) \<longrightarrow>
               out = done_with s [(SocketEmit i, SystemMessage NoValidMembers)]))"
proof (intro conjI)
  show "(\<exists>e \<in> set (emits out). snd e = SystemMessage InvalidRequest)
            \<longleftrightarrow> (G = [] \<or> members = None \<or> members = Some [])"
  proof (cases "G = [] \<or> members = None \<or> members = Some []")
    case True
    then show ?thesis by (simp add: out create_group_invalid done_with_def)
  next
    case False
    then obtain ms where "G \<noteq> []" "members = Some ms" "ms \<noteq> []" by auto
    from create_group_valid_no_invalid_request[OF this, of s i] False
    show ?thesis by (auto simp: out)
  qed
next
  show "G = [] \<or> members = None \<or> members = Some [] \<longrightarrow>
            out = done_with s [(SocketEmit i, SystemMessage InvalidRequest)]"
    by (simp add: out create_group_invalid)
next
  show "\<forall>ms. G \<noteq> [] \<and> obj_get (groups s) G = Undefined \<and> members = Some ms \<and> ms \<noteq> []
              \<and> (\<forall>n \<in> set ms. n \<notin> set (object_values (users s))) \<longrightarrow>
            (\<forall>z. users_get s i = Some z \<and> nick_truthy z \<longrightarrow>
               \<not> threw out \<and> groups (post out) = groups s @ [(G, [z])])
            \<and> ((\<forall>z. users_get s i = Some z \<longrightarrow> \<not> nick_truthy z) \<longrightarrow>
               out = done_with s [(SocketEmit i, SystemMessage NoValidMembers)])"
  proof (intro allI impI, elim conjE)
    fix ms
    assume G: "G \<noteq> []" and U: "obj_get (groups s) G = Undefined" and m: "members = Some ms"
      and ne: "ms \<noteq> []" and none: "\<forall>n \<in> set ms. n \<notin> set (object_values (users s))"
    note vm = validMembers_none_connected[OF none, of i]
    show "(\<forall>z. users_get s i = Some z \<and> nick_truthy z \<longrightarrow>
               \<not> threw out \<and> groups (post out) = groups s @ [(G, [z])])
            \<and> ((\<forall>z. users_get s i = Some z \<longrightarrow> \<not> nick_truthy z) \<longrightarrow>
               out = done_with s [(SocketEmit i, SystemMessage NoValidMembers)])"
    proof (intro conjI allI impI)
      fix z assume z: "users_get s i = Some z \<and> nick_truthy z"
      then have v: "validMembers s i ms = [z]" using vm by simp
      then have "validMembers s i ms \<noteq> []" by simp
      from create_group_stored[OF G ne U this]
      show "\<not> threw out" "groups (post out) = groups s @ [(G, [z])]"
        by (simp_all add: out m v done_with_def)
    next
      assume "\<forall>z. users_get s i = Some z \<longrightarrow> \<not> nick_truthy z"
      then have "validMembers s i ms = []" using vm by (cases "users_get s i") auto
      from create_group_no_members[OF G ne U this]
      show "out = done_with s [(SocketEmit i, SystemMessage NoValidMembers)]"
        by (simp add: out m)
    qed
  qed
qed

text \<open>Instances: an empty proposed list and an empty name are both InvalidRequest.\<close>

theorem create_group_invalid_request_witness:
  "create_group c3_state ''s1'' ''G'' (Some [])
     = done_with c3_state [(SocketEmit ''s1'', SystemMessage InvalidRequest)]
   \<and> create_group c3_state ''s1'' [] (Some [Name ''z''])
     = done_with c3_state [(SocketEmit ''s1'', SystemMessage InvalidRequest)]"
proof -
  note a = create_group_invalid_request[OF refl, of c3_state "''s1''" "''G''" "Some []"]
  note b = create_group_invalid_request[OF refl, of c3_state "''s1''" "[]" "Some [Name ''z'']"]
  from a have "''G'' = [] \<or> Some ([]::nick list) = None \<or> Some [] = Some ([]::nick list) \<longrightarrow>
       create_group c3_state ''s1'' ''G'' (Some [])
         = done_with c3_state [(SocketEmit ''s1'', SystemMessage InvalidRequest)]"
    by (elim conjE)
  then have 1: "create_group c3_state ''s1'' ''G'' (Some [])
         = done_with c3_state [(SocketEmit ''s1'', SystemMessage InvalidRequest)]"
    by simp
  from b have "[] = ([]::string) \<or> Some [Name ''z''] = None \<or> Some [Name ''z''] = Some [] \<longrightarrow>
       create_group c3_state ''s1'' [] (Some [Name ''z''])
         = done_with c3_state [(SocketEmit ''s1'', SystemMessage InvalidRequest)]"
    by (elim conjE)
  then have 2: "create_group c3_state ''s1'' [] (Some [Name ''z''])
         = done_with c3_state [(SocketEmit ''s1'', SystemMessage InvalidRequest)]"
    by simp
  from 1 2 show ?thesis by simp
qed

text \<open>
  As stated, C3 fails: with the one proposed member \<open>y\<close> not connected, the creator
  \<open>z\<close> gets the group \<open>G\<close> stored with itself as member, and a creator without
  nickname gets NoValidMembers; neither is InvalidRequest.
\<close>

theorem create_group_all_filtered_out:
  "reachable_from (initial []) c3_state
   \<and> (Name ''y'') \<notin> set (object_values (users c3_state))
   \<and> create_group c3_state ''s1'' ''G'' (Some [Name ''y''])
       = done_with (c3_state\<lparr>groups := [(''G'', [Name ''z''])]\<rparr>)
           [(IoTo ''s1'', GroupList [''G'']),
            (SocketEmit ''s1'', SystemMessage (GroupCreated ''G'' 1))]
   \<and> reachable_from (initial []) c3_bare
   \<and> (Name ''y'') \<notin> set (object_values (users c3_bare))
   \<and> create_group c3_bare ''s1'' ''G'' (Some [Name ''y''])
       = done_with c3_bare [(SocketEmit ''s1'', SystemMessage NoValidMembers)]"
proof -
  have "(Name ''y'') \<notin> set (object_values (users c3_state))"
    by (simp add: c3_state_def object_values_def object_entries_plain)
  moreover have "(Name ''y'') \<notin> set (object_values (users c3_bare))"
    by (simp add: c3_bare_def object_values_def)
  ultimately show ?thesis
    by (simp add: c3_create c3_create_bare c3_reachable c3_bare_reachable)
qed

subsection \<open>C4: the invariant of stored messages\<close>




subsection \<open>C5: the reset\<close>

text \<open>
  C5, as amended. In every well-formed state (whatever the history and the groups
  hold) the reset does not throw, empties the history and the groups and leaves
  everything else, \<open>users\<close> included, as it was. A connected socket that has an entry
  in \<open>users\<close> receives the user list of before the reset, then an empty group list,
  then an empty history; a connected socket without an entry receives the user list
  only.
\<close>

theorem reset_clears_and_rebroadcasts:
  assumes wf: "wf_state s"
  shows "\<not> threw (reset s)
       \<and> post (reset s) = s\<lparr>chatHistory := [], groups := []\<rparr>
       \<and> users (post (reset s)) = users s
       \<and> (\<forall>c \<in> set (sockets s).
            inbox (sockets s) (emits (reset s)) c =
              (if c \<in> fst ` set (users s)
               then [UserList (object_values (users s)), GroupList [], ChatHistory []]
               else [UserList (object_values (users s))]))"
proof -
  let ?s' = "s\<lparr>chatHistory := [], groups := []\<rparr>"
  let ?pairs = "concat (map (\<lambda>e. [(IoTo (fst e), GroupList []), (IoTo (fst e), ChatHistory [])])
                   (object_entries (users s)))"
  have "reset_each ?s' (object_entries (users s)) = (?pairs, False)"
    by (rule reset_each_empty) simp
  then have r: "reset s = \<lparr>post = ?s', emits = (IoEmit, UserList (object_values (users s))) # ?pairs,
                            threw = False\<rparr>"
    by (simp add: reset_def Let_def)
  have d: "distinct (map fst (object_entries (users s)))"
    using wf by (simp add: wf_state_def distinct_object_entries)
  have "inbox (sockets s) (emits (reset s)) c =
              (if c \<in> fst ` set (users s)
               then [UserList (object_values (users s)), GroupList [], ChatHistory []]
               else [UserList (object_values (users s))])" if "c \<in> set (sockets s)" for c
    using that by (simp add: r inbox_Cons inbox_reset_pairs[OF d] set_object_entries)
  then show ?thesis by (simp add: r)
qed

text \<open>An instance, with one stored message and one group before the reset.\<close>

theorem reset_clears_and_rebroadcasts_witness:
  "chatHistory c5_state \<noteq> [] \<and> groups c5_state \<noteq> []
   \<and> chatHistory (post (reset c5_state)) = [] \<and> groups (post (reset c5_state)) = []
   \<and> users (post (reset c5_state)) = [(''s1'', Name ''ann'')]
   \<and> inbox (sockets c5_state) (emits (reset c5_state)) ''s1''
       = [UserList [Name ''ann''], GroupList [], ChatHistory []]"
proof -
  note th = reset_clears_and_rebroadcasts[OF c5_wf]
  from th have p: "post (reset c5_state) = c5_state\<lparr>chatHistory := [], groups := []\<rparr>"
    by (elim conjE)
  from th have "\<forall>c \<in> set (sockets c5_state).
            inbox (sockets c5_state) (emits (reset c5_state)) c =
              (if c \<in> fst ` set (users c5_state)
               then [UserList (object_values (users c5_state)), GroupList [], ChatHistory []]
               else [UserList (object_values (users c5_state))])"
    by (elim conjE)
  moreover have "''s1'' \<in> set (sockets c5_state)" by (simp add: c5_state_def)
  ultimately have "inbox (sockets c5_state) (emits (reset c5_state)) ''s1'' =
              (if ''s1'' \<in> fst ` set (users c5_state)
               then [UserList (object_values (users c5_state)), GroupList [], ChatHistory []]
               else [UserList (object_values (users c5_state))])"
    by (rule bspec)
  moreover have "''s1'' \<in> fst ` set (users c5_state)" by (simp add: c5_state_def)
  ultimately have "inbox (sockets c5_state) (emits (reset c5_state)) ''s1''
       = [UserList [Name ''ann''], GroupList [], ChatHistory []]"
    by (simp add: c5_values)
  then show ?thesis by (simp add: p) (simp add: c5_state_def)
qed

text \<open>
  As stated for every connected socket, C5 fails: the loop runs over the keys of
  \<open>users\<close>, so a connected socket that has set no nickname gets neither a group list
  nor a history.
\<close>

theorem reset_skips_unnamed_socket:
  "reachable_from (initial []) c5_state
   \<and> ''s2'' \<in> set (sockets c5_state)
   \<and> chatHistory c5_state \<noteq> []
   \<and> groups c5_state \<noteq> []
   \<and> inbox (sockets c5_state) (emits (reset c5_state)) ''s2'' = [UserList [Name ''ann'']]"
proof -
  have "inbox (sockets c5_state) (emits (reset c5_state)) ''s2'' = [UserList [Name ''ann'']]"
    by (simp add: reset_def Let_def filterHistoryForNickname_def inbox_Cons inbox_Nil)
       (simp add: c5_state_def object_values_def object_entries_plain filterHistoryForNickname_def
          inbox_Cons inbox_Nil)
  then show ?thesis by (simp add: c5_reachable) (simp add: c5_state_def)
qed

subsection \<open>C6: filter, then add the creator\<close>

text \<open>
  C6. Let the connected nicknames be exactly \<open>x\<close> and \<open>z\<close>, let the creator's nickname
  be \<open>z\<close>, a non-empty string, and let \<open>y\<close> be a third name. Creating the fresh group \<open>G\<close> with the proposed
  members \<open>x\<close> and \<open>y\<close> stores \<open>G\<close> with the members \<open>x\<close> and \<open>z\<close>: \<open>y\<close> is dropped, \<open>z\<close> is
  added.
\<close>

theorem create_group_filter_then_add:
  assumes G: "G \<noteq> []" and U: "obj_get (groups s) G = Undefined"
    and z: "users_get s i = Some z" "nick_truthy z"
    and conn: "set (object_values (users s)) = {x, z}"
    and d: "x \<noteq> z" "y \<noteq> x" "y \<noteq> z"
  shows "\<not> threw (create_group s i G (Some [x, y]))
       \<and> groups (post (create_group s i G (Some [x, y]))) = groups s @ [(G, [x, z])]
       \<and> obj_get (groups (post (create_group s i G (Some [x, y])))) G = Own [x, z]"
proof -
  have v: "validMembers s i [x, y] = [x, z]"
    using z conn d by (simp add: validMembers_def Let_def)
  then have "validMembers s i [x, y] \<noteq> []" by simp
  from create_group_stored[OF G _ U this]
  have c: "post (create_group s i G (Some [x, y])) = s\<lparr>groups := groups s @ [(G, [x, z])]\<rparr>"
    "\<not> threw (create_group s i G (Some [x, y]))"
    by (simp_all add: v done_with_def)
  have "map_of (groups s) G = None" using U by (rule obj_get_Undefined_map_of)
  then have "map_of (groups s @ [(G, [x, z])]) G = Some [x, z]"
    by (simp add: map_add_def)
  then show ?thesis by (simp add: c obj_get_Own_iff)
qed

text \<open>The instance of the claim, with the names it uses.\<close>

theorem create_group_filter_then_add_witness:
  "groups (post (create_group c6_state ''s2'' ''G'' (Some [Name ''x'', Name ''y''])))
     = [(''G'', [Name ''x'', Name ''z''])]"
proof -
  have G: "''G'' \<noteq> []" by simp
  have U: "obj_get (groups c6_state) ''G'' = Undefined"
    by (simp add: c6_state_def obj_get_def object_prototype_names_def)
  have z: "users_get c6_state ''s2'' = Some (Name ''z'')" "nick_truthy (Name ''z'')"
    by (simp_all add: c6_state_def users_get_def nick_truthy_def)
  have conn: "set (object_values (users c6_state)) = {Name ''x'', Name ''z''}"
    by (simp add: c6_state_def object_values_def object_entries_plain)
  have d: "(Name ''x'') \<noteq> (Name ''z'')" "(Name ''y'') \<noteq> (Name ''x'')" "(Name ''y'') \<noteq> (Name ''z'')" by simp_all
  from create_group_filter_then_add[OF G U z conn d]
  show ?thesis by (simp add: c6_state_def)
qed

subsection \<open>C7: typing to an unresolved private target\<close>

text \<open>
  C7. When the target nickname resolves to no socket, a typing event of type
  private emits nothing and changes nothing, while a private chat message to the same
  target emits the TargetNotConnected notice to the sender.
\<close>

theorem typing_private_unresolved_dropped:
  assumes "nicknameToSocketId s (Name t) = None"
  shows "typing s i ''private'' (Some t) = done_with s []
       \<and> chat_private s i (Name t) b now
           = done_with s [(SocketEmit i, SystemMessage (TargetNotConnected (Name t)))]"
  using assms by (simp add: typing_def chat_private_def truthy_def str_of_def Let_def)

text \<open>An instance: nobody is called bob.\<close>

theorem typing_private_unresolved_dropped_witness:
  "typing c6_state ''s1'' ''private'' (Some ''bob'') = done_with c6_state []
   \<and> chat_private c6_state ''s1'' (Name ''bob'') hi 0
       = done_with c6_state [(SocketEmit ''s1'', SystemMessage (TargetNotConnected (Name ''bob'')))]"
proof -
  have "nicknameToSocketId c6_state (Name ''bob'') = None"
    by (simp add: nicknameToSocketId_def c6_state_def object_entries_plain)
  from typing_private_unresolved_dropped[OF this] show ?thesis .
qed

subsection \<open>C8: a private message to oneself\<close>

text \<open>
  C8. Let \<open>(i, N)\<close> be the first entry of \<open>users\<close>, in enumeration order, whose nickname
  is \<open>N\<close>. When socket \<open>i\<close> sends a private message with target \<open>N\<close>, the target resolves
  to \<open>i\<close> itself and \<open>i\<close> receives the message twice.
\<close>

theorem self_private_delivered_twice:
  assumes wf: "wf_state s"
    and order: "object_entries (users s) = before @ (i, N) # after"
    and first: "\<forall>e \<in> set before. snd e \<noteq> N"
  shows "users_get s i = Some N
       \<and> nicknameToSocketId s N = Some i
       \<and> inbox (sockets s) (emits (chat_private s i N b now)) i
           = [ChatMessage (private_message s i N b now),
              ChatMessage (private_message s i N b now)]"
proof -
  have "(i, N) \<in> set (object_entries (users s))" by (simp add: order)
  then have "(i, N) \<in> set (users s)" by (simp add: set_object_entries)
  from wf_user_socket[OF wf this]
  have i: "i \<in> set (sockets s)" "i \<noteq> []" "users_get s i = Some N" by simp_all
  have "find (\<lambda>e. snd e = N) (object_entries (users s)) = Some (i, N)"
    unfolding order using first by (intro find_first) simp_all
  then have r: "nicknameToSocketId s N = Some i"
    using i(2) by (simp add: nicknameToSocketId_def)
  show ?thesis
    using i r by (simp add: chat_private_def Let_def done_with_def inbox_Cons inbox_Nil)
qed

text \<open>An instance: x writes to x.\<close>

theorem self_private_delivered_twice_witness:
  "inbox (sockets c10_state) (emits (chat_private c10_state ''s1'' (Name ''x'') hi 0)) ''s1''
     = [ChatMessage (private_message c10_state ''s1'' (Name ''x'') hi 0),
        ChatMessage (private_message c10_state ''s1'' (Name ''x'') hi 0)]"
proof -
  have o: "object_entries (users c10_state) = [] @ (''s1'', Name ''x'') # [(''s2'', Name ''z'')]"
    by (simp add: c10_state_def object_entries_plain)
  have f: "\<forall>e \<in> set ([]::(sid \<times> nick) list). snd e \<noteq> (Name ''x'')" by simp
  from self_private_delivered_twice[OF c10_wf o f, of hi 0] show ?thesis by (elim conjE)
qed

subsection \<open>C9: a group created by a socket without nickname\<close>

text \<open>
  C9. Let socket \<open>i\<close> be connected and have no entry in \<open>users\<close>, and let at least one
  proposed member be a connected nickname. Creating a fresh group with a non-empty
  name succeeds: the stored member list is the proposed list filtered by the
  connected nicknames, it is not empty, no member resolves to \<open>i\<close>, and all that \<open>i\<close>
  receives is the confirmation.
\<close>

theorem create_group_without_nickname:
  assumes i: "i \<in> set (sockets s)" and no: "users_get s i = None"
    and G: "G \<noteq> []" and U: "obj_get (groups s) G = Undefined"
    and one: "\<exists>n \<in> set ms. n \<in> set (object_values (users s))"
    and valid: "valid = filter (\<lambda>n. n \<in> set (object_values (users s))) ms"
    and out: "out = create_group s i G (Some ms)"
  shows "\<not> threw out
       \<and> groups (post out) = groups s @ [(G, valid)]
       \<and> users (post out) = users s
       \<and> valid \<noteq> []
       \<and> (\<forall>n \<in> set valid. nicknameToSocketId (post out) n \<noteq> Some i)
       \<and> inbox (sockets s) (emits out) i = [SystemMessage (GroupCreated G (length valid))]"
proof -
  have v: "validMembers s i ms = valid"
    using no by (simp add: validMembers_def valid Let_def)
  from one have ne: "valid \<noteq> []" by (auto simp: valid filter_empty_conv)
  from one have ms: "ms \<noteq> []" by auto
  let ?s' = "s\<lparr>groups := groups s @ [(G, valid)]\<rparr>"
  from create_group_stored[OF G ms U] ne
  have c: "out = done_with ?s' (notify_members ?s' valid
              @ [(SocketEmit i, SystemMessage (GroupCreated G (length valid)))])"
    by (simp add: out v)
  have no': "users_get ?s' i = None" using no by (simp add: users_get_def)
  have "nicknameToSocketId ?s' n \<noteq> Some i" for n
  proof
    assume "nicknameToSocketId ?s' n = Some i"
    from nicknameToSocketId_SomeD[OF this] have "(i, n) \<in> set (users s)" by simp
    then have "map_of (users s) i \<noteq> None"
      by (auto simp: map_of_eq_None_iff intro: rev_image_eqI)
    with no show False by (simp add: users_get_def)
  qed
  moreover have "inbox (sockets s) (emits out) i = [SystemMessage (GroupCreated G (length valid))]"
    using i by (simp add: c done_with_def inbox_append notify_members_not_to[OF no'] inbox_Cons inbox_Nil)
  ultimately show ?thesis using ne by (simp add: c done_with_def)
qed

text \<open>An instance: the third socket has no nickname and creates a group of x alone.\<close>

theorem create_group_without_nickname_witness:
  "groups (post (create_group c9_state ''s3'' ''G'' (Some [Name ''x'', Name ''y''])))
     = [(''G'', [Name ''x''])]
   \<and> inbox (sockets c9_state) (emits (create_group c9_state ''s3'' ''G'' (Some [Name ''x'', Name ''y'']))) ''s3''
     = [SystemMessage (GroupCreated ''G'' 1)]"
proof -
  have i: "''s3'' \<in> set (sockets c9_state)" by (simp add: c9_state_def)
  have no: "users_get c9_state ''s3'' = None" by (simp add: c9_state_def users_get_def)
  have G: "''G'' \<noteq> []" by simp
  have U: "obj_get (groups c9_state) ''G'' = Undefined"
    by (simp add: c9_state_def obj_get_def object_prototype_names_def)
  have v: "object_values (users c9_state) = [Name ''x'', Name ''z'']"
    by (simp add: c9_state_def object_values_def object_entries_plain)
  have one: "\<exists>n \<in> set [Name ''x'', Name ''y'']. n \<in> set (object_values (users c9_state))"
    by (simp add: v)
  have valid: "[Name ''x''] = filter (\<lambda>n. n \<in> set (object_values (users c9_state))) [Name ''x'', Name ''y'']"
    by (simp add: v)
  from create_group_without_nickname[OF i no G U one valid refl]
  show ?thesis by (simp add: c9_state_def)
qed

subsection \<open>C10: typing to a group\<close>

text \<open>
  C10, as amended. For an existing group \<open>G\<close> with member list \<open>M\<close> and any socket \<open>i\<close> at
  all, member or not, with or without nickname, a typing event of type group with
  target \<open>G\<close> changes nothing, emits only the typing packet, and the sockets that
  receive it are exactly those, other than \<open>i\<close>, that a member of \<open>M\<close> resolves to: for
  each member nickname the first socket of \<open>users\<close> that holds it. When no two sockets
  hold the same nickname, these are all the sockets other than \<open>i\<close> whose nickname is
  in \<open>M\<close>.
\<close>

theorem group_typing_no_membership_check:
  assumes wf: "wf_state s" and G: "obj_get (groups s) G = Own M"
    and p: "p = Typing (users_get s i) ''group'' (Some G)"
  shows "typing s i ''group'' (Some G) = done_with s (typing_members s i p M)
       \<and> receivers (sockets s) (emits (typing s i ''group'' (Some G))) p
           = {c. c \<noteq> i \<and> (\<exists>member \<in> set M. nicknameToSocketId s member = Some c)}
       \<and> (\<forall>e \<in> set (emits (typing s i ''group'' (Some G))). snd e = p)
       \<and> (distinct (map snd (users s)) \<longrightarrow>
            receivers (sockets s) (emits (typing s i ''group'' (Some G))) p
              = {c. c \<noteq> i \<and> (\<exists>member \<in> set M. users_get s c = Some member)})"
proof -
  have ne: "G \<noteq> []" using wf_group_name[OF wf G] .
  have t: "typing s i ''group'' (Some G) = done_with s (typing_members s i p M)"
    using ne G by (simp add: typing_def truthy_def str_of_def Let_def p)
  have r: "receivers (sockets s) (emits (typing s i ''group'' (Some G))) p
           = {c. c \<noteq> i \<and> (\<exists>member \<in> set M. nicknameToSocketId s member = Some c)}"
    unfolding t by (simp add: done_with_def typing_members_receivers[OF wf])
  have e: "\<forall>e \<in> set (emits (typing s i ''group'' (Some G))). snd e = p"
    unfolding t by (auto simp: done_with_def dest: typing_members_packets)
  have u: "receivers (sockets s) (emits (typing s i ''group'' (Some G))) p
              = {c. c \<noteq> i \<and> (\<exists>member \<in> set M. users_get s c = Some member)}"
    if "distinct (map snd (users s))"
    unfolding r by (simp add: resolved_iff_holds[OF wf that])
  from t r e u show ?thesis by simp
qed

text \<open>An instance: a socket without nickname, not a member, types to the group of x and z.\<close>

theorem group_typing_no_membership_check_witness:
  "users_get c10_state ''s3'' = None
   \<and> typing c10_state ''s3'' ''group'' (Some ''G'')
       = done_with c10_state [(IoTo ''s1'', Typing None ''group'' (Some ''G'')),
                              (IoTo ''s2'', Typing None ''group'' (Some ''G''))]
   \<and> distinct (map snd (users c10_state))
   \<and> receivers (sockets c10_state) (emits (typing c10_state ''s3'' ''group'' (Some ''G'')))
        (Typing None ''group'' (Some ''G'')) = {''s1'', ''s2''}"
proof -
  have wf: "wf_state c10_state"
    by (simp add: wf_state_def c10_state_def object_prototype_names_def)
  have G: "obj_get (groups c10_state) ''G'' = Own [Name ''x'', Name ''z'']"
    by (simp add: c10_state_def obj_get_def)
  have u: "users_get c10_state ''s3'' = None" by (simp add: c10_state_def users_get_def)
  have d: "distinct (map snd (users c10_state))" by (simp add: c10_state_def)
  note th = group_typing_no_membership_check[OF wf G refl, of "''s3''"]
  from th
  have "typing c10_state ''s3'' ''group'' (Some ''G'')
          = done_with c10_state (typing_members c10_state ''s3''
              (Typing (users_get c10_state ''s3'') ''group'' (Some ''G'')) [Name ''x'', Name ''z''])"
    by (elim conjE)
  then have t: "typing c10_state ''s3'' ''group'' (Some ''G'')
       = done_with c10_state [(IoTo ''s1'', Typing None ''group'' (Some ''G'')),
                              (IoTo ''s2'', Typing None ''group'' (Some ''G''))]"
    by (simp add: u c10_resolve)
  from th have "distinct (map snd (users c10_state)) \<longrightarrow>
      receivers (sockets c10_state) (emits (typing c10_state ''s3'' ''group'' (Some ''G'')))
        (Typing (users_get c10_state ''s3'') ''group'' (Some ''G''))
      = {c. c \<noteq> ''s3'' \<and> (\<exists>member \<in> set [Name ''x'', Name ''z''].
              users_get c10_state c = Some member)}"
    by (elim conjE)
  with d have r: "receivers (sockets c10_state)
        (emits (typing c10_state ''s3'' ''group'' (Some ''G'')))
        (Typing (users_get c10_state ''s3'') ''group'' (Some ''G''))
      = {c. c \<noteq> ''s3'' \<and> (\<exists>member \<in> set [Name ''x'', Name ''z''].
              users_get c10_state c = Some member)}"
    by (rule rev_mp)
  have "{c. c \<noteq> ''s3'' \<and> (\<exists>member \<in> set [Name ''x'', Name ''z''].
              users_get c10_state c = Some member)} = {''s1'', ''s2''}"
    by (auto simp: users_get_def c10_state_def split: if_splits)
  with r u have "receivers (sockets c10_state)
        (emits (typing c10_state ''s3'' ''group'' (Some ''G'')))
        (Typing None ''group'' (Some ''G'')) = {''s1'', ''s2''}"
    by simp
  with u t d show ?thesis by simp
qed

text \<open>
  As stated for every live member connection, C10 fails when two sockets hold the
  same nickname: \<open>s1\<close> and \<open>s2\<close> are both called x, the group is x and z, and the socket
  \<open>s2\<close>, whose own group messages are accepted, receives nothing when \<open>s3\<close> types.
\<close>

theorem group_typing_skips_second_holder:
  "reachable_from (initial []) c10_dup
   \<and> obj_get (groups c10_dup) ''G'' = Own [Name ''x'', Name ''z'']
   \<and> ''s2'' \<in> set (sockets c10_dup)
   \<and> users_get c10_dup ''s2'' = Some (Name ''x'')
   \<and> post (chat_group c10_dup ''s2'' ''G'' hi 0)
       = push_history c10_dup (group_message ''s2'' (Name ''x'') ''G'' hi 0)
   \<and> typing c10_dup ''s3'' ''group'' (Some ''G'')
       = done_with c10_dup [(IoTo ''s1'', Typing (Some (Name ''z'')) ''group'' (Some ''G''))]
   \<and> inbox (sockets c10_dup) (emits (typing c10_dup ''s3'' ''group'' (Some ''G''))) ''s2'' = []"
proof -
  have s: "''s2'' \<in> set (sockets c10_dup)" by (simp add: c10_dup_def)
  have u3: "users_get c10_dup ''s3'' = Some (Name ''z'')"
    by (simp add: c10_dup_def users_get_def)
  have g: "post (chat_group c10_dup ''s2'' ''G'' hi 0)
       = push_history c10_dup (group_message ''s2'' (Name ''x'') ''G'' hi 0)"
    by (simp add: chat_group_def c10_dup_group c10_dup_user Let_def done_with_def)
  have t: "typing c10_dup ''s3'' ''group'' (Some ''G'')
       = done_with c10_dup [(IoTo ''s1'', Typing (Some (Name ''z'')) ''group'' (Some ''G''))]"
    by (simp add: typing_def truthy_def str_of_def Let_def c10_dup_group c10_dup_resolve u3)
  have "inbox (sockets c10_dup) (emits (typing c10_dup ''s3'' ''group'' (Some ''G''))) ''s2'' = []"
    unfolding t by (simp add: done_with_def inbox_Cons inbox_Nil)
  with s g t show ?thesis
    by (simp add: c10_dup_reachable c10_dup_group c10_dup_user)
qed

end
